theory Spec2Isabelle
  imports Main
begin

section \<open>The WordPress reader: data model\<close>

text \<open>
  The embedding follows \<^verbatim>\<open>llama_index/readers/wordpress/base.py\<close>: the class
  \<^verbatim>\<open>WordpressReader\<close> with \<^verbatim>\<open>__init__\<close>, \<^verbatim>\<open>load_data\<close>,
  \<^verbatim>\<open>get_all_posts\<close> and \<^verbatim>\<open>get_posts_page\<close>.

  Python values that come out of \<^verbatim>\<open>response.json()\<close> are modelled by the datatype
  \<open>json\<close>: \<^verbatim>\<open>None\<close>, booleans, integers, strings, lists and dictionaries with string
  keys (an association list; \<open>map_of\<close> looks a key up). JSON numbers with a fraction
  (Python floats) are left out: no field the reader inspects is a float in the API.
  Strings are lists of 8-bit characters.
\<close>

datatype json =
    JNull
  | JBool bool
  | JInt int
  | JStr string
  | JArr "json list"
  | JObj "(string \<times> json) list"

text \<open>
  Exceptions are values. \<open>KeyError k\<close> is what \<^verbatim>\<open>article["k"]\<close> raises on a missing key
  (the spec's MalformedItemError), \<open>HTTPError c\<close> is what \<^verbatim>\<open>raise_for_status()\<close> raises
  for status \<open>c\<close> (the spec's RemoteRequestError), \<open>ExternalError\<close> stands for an exception
  raised inside an external collaborator (transport failure, body that is not JSON,
  the markup extractor).
\<close>

datatype error =
    AttributeError
  | KeyError string
  | ValueError
  | TypeError
  | HTTPError nat
  | ExternalError string

text \<open>The reader object: the attributes \<^verbatim>\<open>__init__\<close> sets.\<close>

record WordpressReader =
  url :: string
  username :: "string option"
  password :: "string option"
  page_limit :: "int option"
  post_types :: "string list"

text \<open>
  The HTTP exchange of \<^verbatim>\<open>requests.get(url, auth=auth, headers=headers)\<close>: the request
  as the reader builds it, and the parts of the response the reader reads.
  \<open>json_body\<close> is the outcome of \<^verbatim>\<open>response.json()\<close>, which raises when the body is
  not JSON.
\<close>

record request =
  req_url :: string
  req_auth :: "(string \<times> string) option"
  req_headers :: "(string \<times> string) list"

record response =
  status_code :: nat
  headers :: "(string \<times> string) list"
  json_body :: "error + json"

text \<open>
  The remote site is a parameter: a state machine \<open>srv\<close> that, in a world state \<open>'w\<close>,
  answers a request (or fails at transport level) and moves to a new world state. The
  network state threaded through the reader keeps the log of every request issued.
\<close>

type_synonym 'w server = "'w \<Rightarrow> request \<Rightarrow> (error + response) \<times> 'w"

record 'w net =
  sent :: "request list"
  world :: 'w

text \<open>The dictionary \<^verbatim>\<open>{"articles": ..., "next_page": ...}\<close> that \<^verbatim>\<open>get_posts_page\<close> returns.\<close>

record page =
  articles :: json
  next_page :: "int option"

text \<open>
  \<^verbatim>\<open>Document(text=body, extra_info=extra_info)\<close>: the text (field \<open>doc_text\<close>, since
  \<open>text\<close> is a keyword here) and the metadata dictionary (keys \<^verbatim>\<open>id\<close>, \<^verbatim>\<open>title\<close>, \<^verbatim>\<open>url\<close>, \<^verbatim>\<open>updated_at\<close>, in that order).
\<close>

record document =
  doc_text :: string
  extra_info :: "(string \<times> json) list"

section \<open>Python primitives the reader uses\<close>

text \<open>\<^verbatim>\<open>v.get(key, default)\<close>: only a dictionary has the method; anything else raises AttributeError.\<close>

fun py_get :: "json \<Rightarrow> string \<Rightarrow> json \<Rightarrow> error + json" where
  "py_get (JObj kvs) k d = Inr (case map_of kvs k of None \<Rightarrow> d | Some v \<Rightarrow> v)"
| "py_get _ k d = Inl AttributeError"

text \<open>\<^verbatim>\<open>v["key"]\<close> with a string key: KeyError on a dictionary without the key, TypeError elsewhere.\<close>

fun py_getitem :: "json \<Rightarrow> string \<Rightarrow> error + json" where
  "py_getitem (JObj kvs) k = (case map_of kvs k of None \<Rightarrow> Inl (KeyError k) | Some v \<Rightarrow> Inr v)"
| "py_getitem _ k = Inl TypeError"

text \<open>Truth value of a Python object, as \<^verbatim>\<open>or\<close> tests it.\<close>

fun truthy :: "json \<Rightarrow> bool" where
  "truthy JNull = False"
| "truthy (JBool b) = b"
| "truthy (JInt i) = (i \<noteq> 0)"
| "truthy (JStr s) = (s \<noteq> [])"
| "truthy (JArr xs) = (xs \<noteq> [])"
| "truthy (JObj kvs) = (kvs \<noteq> [])"

text \<open>
  Iterating a value, as \<^verbatim>\<open>list.extend\<close> does: a list gives its elements, a dictionary
  its keys, a string its characters; \<^verbatim>\<open>None\<close>, booleans and integers raise TypeError.
\<close>

fun py_iter :: "json \<Rightarrow> error + json list" where
  "py_iter (JArr xs) = Inr xs"
| "py_iter (JObj kvs) = Inr (map (\<lambda>kv. JStr (fst kv)) kvs)"
| "py_iter (JStr s) = Inr (map (\<lambda>c. JStr [c]) s)"
| "py_iter _ = Inl TypeError"

text \<open>
  Whitespace as \<^verbatim>\<open>str.strip()\<close> sees it, for code points below 256: TAB, LF, VT,
  FF, CR, the separators 28 to 31, space, NEL (133) and NBSP (160).
\<close>

definition py_isspace :: "char \<Rightarrow> bool" where
  "py_isspace c = (let n = (of_char c :: nat) in
     (9 \<le> n \<and> n \<le> 13) \<or> (28 \<le> n \<and> n \<le> 32) \<or> n = 133 \<or> n = 160)"

definition py_strip :: "string \<Rightarrow> string" where
  "py_strip s = rev (dropWhile py_isspace (rev (dropWhile py_isspace s)))"

text \<open>\<^verbatim>\<open>s.split(sep)\<close> with a one-character separator: never empty, \<^verbatim>\<open>"".split(",") == [""]\<close>.\<close>

fun py_split :: "char \<Rightarrow> string \<Rightarrow> string list" where
  "py_split sep [] = [[]]"
| "py_split sep (c # cs) =
     (if c = sep then [] # py_split sep cs
      else (case py_split sep cs of
              w # ws \<Rightarrow> (c # w) # ws
            | [] \<Rightarrow> [[c]]))"

text \<open>
  \<^verbatim>\<open>int(s)\<close> on a string, base 10, as CPython 3.11 computes it. Whitespace around
  the number is skipped, where \<^verbatim>\<open>int\<close> takes for whitespace TAB, LF, VT, FF, CR,
  space, NEL and NBSP, but not the separators 28 to 31 that \<^verbatim>\<open>strip\<close> removes
  (\<^verbatim>\<open>int("\x1c3")\<close> raises). One sign is allowed, then decimal digits, where single
  underscores may stand between digits. A string with more than 4300 digits (the
  default of \<^verbatim>\<open>sys.get_int_max_str_digits()\<close>; underscores, sign and whitespace do
  not count, leading zeros do) raises like any string that is not a number: ValueError.
\<close>

definition int_isspace :: "char \<Rightarrow> bool" where
  "int_isspace c = (let n = (of_char c :: nat) in
     (9 \<le> n \<and> n \<le> 13) \<or> n = 32 \<or> n = 133 \<or> n = 160)"

definition int_max_str_digits :: nat where
  "int_max_str_digits = 4300"

definition is_digit :: "char \<Rightarrow> bool" where
  "is_digit c = (let n = (of_char c :: nat) in 48 \<le> n \<and> n \<le> 57)"

definition digit_val :: "char \<Rightarrow> int" where
  "digit_val c = int (of_char c) - 48"

fun parse_digits :: "int \<Rightarrow> bool \<Rightarrow> string \<Rightarrow> int option" where
  "parse_digits acc prev [] = (if prev then Some acc else None)"
| "parse_digits acc prev (c # cs) =
     (if is_digit c then parse_digits (10 * acc + digit_val c) True cs
      else if c = CHR ''_'' \<and> prev then parse_digits acc False cs
      else None)"

definition py_int :: "string \<Rightarrow> error + int" where
  "py_int s =
     (let t = rev (dropWhile int_isspace (rev (dropWhile int_isspace s)));
          r = (case t of
                 [] \<Rightarrow> None
               | c # cs \<Rightarrow>
                   if c = CHR ''-'' then map_option uminus (parse_digits 0 False cs)
                   else if c = CHR ''+'' then parse_digits 0 False cs
                   else parse_digits 0 False t)
      in case r of
           None \<Rightarrow> Inl ValueError
         | Some i \<Rightarrow>
             if length (filter is_digit t) > int_max_str_digits then Inl ValueError
             else Inr i)"

text \<open>Decimal rendering of an integer, as an f-string writes \<^verbatim>\<open>{current_page}\<close>.\<close>

fun str_of_nat :: "nat \<Rightarrow> string" where
  "str_of_nat n =
     (if n < 10 then [char_of (48 + n)]
      else str_of_nat (n div 10) @ [char_of (48 + n mod 10)])"

definition str_of_int :: "int \<Rightarrow> string" where
  "str_of_int i = (if i < 0 then CHR ''-'' # str_of_nat (nat (- i)) else str_of_nat (nat i))"

text \<open>
  \<^verbatim>\<open>response.headers.get(name)\<close>: the header dictionary of \<^verbatim>\<open>requests\<close> compares names
  without regard to (ASCII) letter case.
\<close>

definition lower_char :: "char \<Rightarrow> char" where
  "lower_char c = (let n = (of_char c :: nat) in
     if 65 \<le> n \<and> n \<le> 90 then char_of (n + 32) else c)"

fun header_get :: "(string \<times> string) list \<Rightarrow> string \<Rightarrow> string option" where
  "header_get [] name = None"
| "header_get ((k, v) # hs) name =
     (if map lower_char k = map lower_char name then Some v else header_get hs name)"

text \<open>
  A Python \<^verbatim>\<open>set\<close> of strings is modelled by the duplicate-free list of its elements.
  The order in which \<^verbatim>\<open>list(a_set)\<close> lists them is an implementation detail (hash
  order): it is modelled by an arbitrary key \<open>h\<close>, the elements being listed by
  increasing key.
\<close>

definition set_add :: "string list \<Rightarrow> string \<Rightarrow> string list" where
  "set_add xs x = (if x \<in> set xs then xs else xs @ [x])"

definition set_update :: "string list \<Rightarrow> string list \<Rightarrow> string list" where
  "set_update xs ys = foldl set_add xs ys"

definition set_to_list :: "(string \<Rightarrow> nat) \<Rightarrow> string list \<Rightarrow> string list" where
  "set_to_list h xs = sort_key h xs"

section \<open>The reader\<close>

text \<open>
  \<^verbatim>\<open>WordpressReader.__init__\<close> (lines 26 to 58). The arguments keep their names, with
  a \<open>0\<close> added where the name is that of a field of the reader; the first argument
  \<open>h\<close> is the key that stands for the set's listing order in line 58.
\<close>

definition WordpressReader_init ::
  "(string \<Rightarrow> nat) \<Rightarrow> string \<Rightarrow> string option \<Rightarrow> string option \<Rightarrow> bool \<Rightarrow> bool \<Rightarrow>
   string option \<Rightarrow> int option \<Rightarrow> WordpressReader" where
  "WordpressReader_init h url0 username0 password0 get_pages get_posts additional_post_types page_limit0 =
     (let types0 = [];
          types1 = (if get_pages then set_add types0 ''pages'' else types0);
          types2 = (if get_posts then set_add types1 ''posts'' else types1);
          types3 = (case additional_post_types of
                      None \<Rightarrow> types2
                    | Some a \<Rightarrow>
                        if a \<noteq> [] then set_update types2 (map py_strip (py_split CHR '','' a))
                        else types2)
      in \<lparr>url = url0, username = username0, password = password0,
          page_limit = page_limit0, post_types = set_to_list h types3\<rparr>)"

text \<open>
  \<^verbatim>\<open>get_posts_page\<close> (lines 131 to 155), in three parts: the request it builds, the
  total page count it reads from the response, and the call itself.
\<close>

definition user_agent :: string where
  "user_agent = ''Mozilla/5.0 (Macintosh; Intel Mac OS X 10_15_7) AppleWebKit/537.36 (KHTML, like Gecko) Chrome/137.0.0.0 Safari/537.36''"

definition page_request :: "WordpressReader \<Rightarrow> string \<Rightarrow> int \<Rightarrow> request" where
  "page_request self post_type current_page =
     \<lparr>req_url = url self @ ''/wp-json/wp/v2/'' @ post_type @ ''?per_page=100&page=''
                  @ str_of_int current_page,
      req_auth = (case (username self, password self) of
                    (Some u, Some p) \<Rightarrow> if u \<noteq> [] \<and> p \<noteq> [] then Some (u, p) else None
                  | _ \<Rightarrow> None),
      req_headers = [(''User-Agent'', user_agent)]\<rparr>"

definition total_pages :: "response \<Rightarrow> error + int" where
  "total_pages r =
     (case header_get (headers r) ''X-WP-TotalPages'' of
        None \<Rightarrow> Inr 1
      | Some v \<Rightarrow> py_int v)"

definition get_posts_page ::
  "'w server \<Rightarrow> WordpressReader \<Rightarrow> string \<Rightarrow> int \<Rightarrow> 'w net \<Rightarrow> (error + page) \<times> 'w net" where
  "get_posts_page srv self post_type current_page s =
     (let req = page_request self post_type current_page;
          (r, w') = srv (world s) req;
          s' = \<lparr>sent = sent s @ [req], world = w'\<rparr>
      in case r of
           Inl e \<Rightarrow> (Inl e, s')
         | Inr resp \<Rightarrow>
             if 400 \<le> status_code resp \<and> status_code resp < 600
             then (Inl (HTTPError (status_code resp)), s')
             else (case total_pages resp of
                     Inl e \<Rightarrow> (Inl e, s')
                   | Inr num_pages \<Rightarrow>
                       (case json_body resp of
                          Inl e \<Rightarrow> (Inl e, s')
                        | Inr arts \<Rightarrow>
                            (Inr \<lparr>articles = arts,
                                  next_page = (if num_pages > current_page
                                               then Some (current_page + 1) else None)\<rparr>,
                             s'))))"

text \<open>
  \<^verbatim>\<open>get_all_posts\<close> (lines 110 to 129). The \<^verbatim>\<open>while True\<close> loop is the recursive
  function \<open>posts_loop\<close> over the loop variables \<^verbatim>\<open>posts\<close>, \<^verbatim>\<open>next_page\<close> (here
  \<open>page_no\<close>) and \<^verbatim>\<open>pages_fetched\<close>; it may run forever, which is the value \<open>None\<close>.
\<close>

partial_function (option) posts_loop ::
  "'w server \<Rightarrow> WordpressReader \<Rightarrow> string \<Rightarrow> json list \<Rightarrow> int \<Rightarrow> int \<Rightarrow> 'w net \<Rightarrow>
   ((error + json list) \<times> 'w net) option" where
  "posts_loop srv self post_type posts page_no pages_fetched s =
     (case get_posts_page srv self post_type page_no s of
        (Inl e, s') \<Rightarrow> Some (Inl e, s')
      | (Inr resp, s') \<Rightarrow>
          (case py_iter (articles resp) of
             Inl e \<Rightarrow> Some (Inl e, s')
           | Inr items \<Rightarrow>
               (case next_page resp of
                  None \<Rightarrow> Some (Inr (posts @ items), s')
                | Some np \<Rightarrow>
                    if (case page_limit self of
                          None \<Rightarrow> False
                        | Some lim \<Rightarrow> pages_fetched + 1 \<ge> lim)
                    then Some (Inr (posts @ items), s')
                    else posts_loop srv self post_type (posts @ items) np (pages_fetched + 1) s')))"

declare posts_loop.simps [code]

definition get_all_posts ::
  "'w server \<Rightarrow> WordpressReader \<Rightarrow> string \<Rightarrow> 'w net \<Rightarrow> ((error + json list) \<times> 'w net) option" where
  "get_all_posts srv self post_type s = posts_loop srv self post_type [] 1 0 s"

text \<open>
  \<^verbatim>\<open>load_data\<close> (lines 60 to 108). The first loop (lines 79 and 80) extends
  \<^verbatim>\<open>articles\<close> with the posts of every type.
\<close>

fun load_articles ::
  "'w server \<Rightarrow> WordpressReader \<Rightarrow> string list \<Rightarrow> json list \<Rightarrow> 'w net \<Rightarrow>
   ((error + json list) \<times> 'w net) option" where
  "load_articles srv self [] arts s = Some (Inr arts, s)"
| "load_articles srv self (post_type # rest) arts s =
     (case get_all_posts srv self post_type s of
        None \<Rightarrow> None
      | Some (Inl e, s') \<Rightarrow> Some (Inl e, s')
      | Some (Inr posts, s') \<Rightarrow> load_articles srv self rest (arts @ posts) s')"

text \<open>Lines 84 to 86: the value handed to the markup extractor.\<close>

definition resolve_body :: "json \<Rightarrow> error + json" where
  "resolve_body article =
     (case py_get article ''content'' (JObj []) of
        Inl e \<Rightarrow> Inl e
      | Inr c \<Rightarrow>
          (case py_get c ''rendered'' JNull of
             Inl e \<Rightarrow> Inl e
           | Inr body \<Rightarrow> if body = JNull then py_get article ''content'' JNull else Inr body))"

text \<open>Lines 91 to 93: the title, with Python's \<^verbatim>\<open>or\<close>.\<close>

definition resolve_title :: "json \<Rightarrow> error + json" where
  "resolve_title article =
     (case py_get article ''title'' (JObj []) of
        Inl e \<Rightarrow> Inl e
      | Inr t \<Rightarrow>
          (case py_get t ''rendered'' JNull of
             Inl e \<Rightarrow> Inl e
           | Inr r \<Rightarrow> if truthy r then Inr r else py_get article ''title'' JNull))"

text \<open>
  The body of the second loop (lines 84 to 107) for one article. The markup extractor
  \<^verbatim>\<open>BeautifulSoup(body).get_text()\<close> is external: it is the parameter \<open>soup\<close>, from
  the value it is given to the text it returns or the exception it raises.
\<close>

definition article_to_document :: "(json \<Rightarrow> error + string) \<Rightarrow> json \<Rightarrow> error + document" where
  "article_to_document soup article =
     (case resolve_body article of
        Inl e \<Rightarrow> Inl e
      | Inr body \<Rightarrow>
     (case soup body of
        Inl e \<Rightarrow> Inl e
      | Inr body_text \<Rightarrow>
     (case resolve_title article of
        Inl e \<Rightarrow> Inl e
      | Inr title \<Rightarrow>
     (case py_getitem article ''id'' of
        Inl e \<Rightarrow> Inl e
      | Inr ident \<Rightarrow>
     (case py_getitem article ''link'' of
        Inl e \<Rightarrow> Inl e
      | Inr link \<Rightarrow>
     (case py_getitem article ''modified'' of
        Inl e \<Rightarrow> Inl e
      | Inr modified \<Rightarrow>
          Inr \<lparr>doc_text = body_text,
               extra_info = [(''id'', ident), (''title'', title), (''url'', link),
                             (''updated_at'', modified)]\<rparr>))))))"

fun process_articles ::
  "(json \<Rightarrow> error + string) \<Rightarrow> json list \<Rightarrow> document list \<Rightarrow> error + document list" where
  "process_articles soup [] results = Inr results"
| "process_articles soup (article # rest) results =
     (case article_to_document soup article of
        Inl e \<Rightarrow> Inl e
      | Inr d \<Rightarrow> process_articles soup rest (results @ [d]))"

definition load_data ::
  "'w server \<Rightarrow> (json \<Rightarrow> error + string) \<Rightarrow> WordpressReader \<Rightarrow> 'w net \<Rightarrow>
   ((error + document list) \<times> 'w net) option" where
  "load_data srv soup self s =
     (case load_articles srv self (post_types self) [] s of
        None \<Rightarrow> None
      | Some (Inl e, s') \<Rightarrow> Some (Inl e, s')
      | Some (Inr arts, s') \<Rightarrow> Some (process_articles soup arts [], s'))"

section \<open>Describing runs\<close>

text \<open>
  The spec's description of pagination, as a relation, against which the loop is
  compared: \<open>page_run srv self post_type p k s batches s'\<close> says that, \<open>k\<close> pages
  having been fetched before, the fetches from page \<open>p\<close> on in network state \<open>s\<close> all
  succeed, follow \<^verbatim>\<open>next_page\<close> from one page to the next, stop at the first page that
  has no next page or that reaches the page limit, return the item batches
  \<open>batches\<close> in this order, and leave the network in state \<open>s'\<close>.
\<close>

inductive page_run ::
  "'w server \<Rightarrow> WordpressReader \<Rightarrow> string \<Rightarrow> int \<Rightarrow> int \<Rightarrow> 'w net \<Rightarrow> json list list \<Rightarrow>
   'w net \<Rightarrow> bool"
  for srv :: "'w server" and self :: WordpressReader and post_type :: string where
  last_page:
    "get_posts_page srv self post_type p s = (Inr pg, s') \<Longrightarrow>
     py_iter (articles pg) = Inr items \<Longrightarrow>
     next_page pg = None \<or> (\<exists>lim. page_limit self = Some lim \<and> lim \<le> k + 1) \<Longrightarrow>
     page_run srv self post_type p k s [items] s'"
| more_pages:
    "get_posts_page srv self post_type p s = (Inr pg, s1) \<Longrightarrow>
     py_iter (articles pg) = Inr items \<Longrightarrow>
     next_page pg = Some np \<Longrightarrow>
     (\<forall>lim. page_limit self = Some lim \<longrightarrow> k + 1 < lim) \<Longrightarrow>
     page_run srv self post_type np (k + 1) s1 batches s' \<Longrightarrow>
     page_run srv self post_type p k s (items # batches) s'"

text \<open>
  \<open>types_run srv self types s bss s'\<close>: the content types \<open>types\<close> are paginated one
  after the other, each from page 1, the type at position \<open>i\<close> returning the batches
  \<open>bss ! i\<close>.
\<close>

inductive types_run ::
  "'w server \<Rightarrow> WordpressReader \<Rightarrow> string list \<Rightarrow> 'w net \<Rightarrow> json list list list \<Rightarrow>
   'w net \<Rightarrow> bool"
  for srv :: "'w server" and self :: WordpressReader where
  no_types: "types_run srv self [] s [] s"
| next_type:
    "page_run srv self post_type 1 0 s batches s1 \<Longrightarrow>
     types_run srv self rest s1 bss s' \<Longrightarrow>
     types_run srv self (post_type # rest) s (batches # bss) s'"

text \<open>
  The responses one content type receives. \<open>world_after srv self post_type w n\<close> is
  the world state of the site after it has answered, from the state \<open>w\<close>, the
  requests for the pages 1 to \<open>n\<close> of the type, one after the other.
  \<open>pages_report srv self post_type w t m\<close> says that the answers to the requests
  for the pages 1 to \<open>m\<close>, given in this order from \<open>w\<close>, all succeed, report the
  total page count \<open>t\<close> and carry a body that can be iterated. Nothing is asked of
  the answers to other requests, nor of the site in other states.
\<close>

fun world_after :: "'w server \<Rightarrow> WordpressReader \<Rightarrow> string \<Rightarrow> 'w \<Rightarrow> nat \<Rightarrow> 'w" where
  "world_after srv self post_type w 0 = w"
| "world_after srv self post_type w (Suc n) =
     snd (srv (world_after srv self post_type w n) (page_request self post_type (int (Suc n))))"

definition pages_report ::
  "'w server \<Rightarrow> WordpressReader \<Rightarrow> string \<Rightarrow> 'w \<Rightarrow> int \<Rightarrow> int \<Rightarrow> bool" where
  "pages_report srv self post_type w t m =
     (\<forall>n. int n < m \<longrightarrow>
        (\<exists>resp. fst (srv (world_after srv self post_type w n)
                          (page_request self post_type (int (Suc n)))) = Inr resp
           \<and> \<not> (400 \<le> status_code resp \<and> status_code resp < 600)
           \<and> total_pages resp = Inr t
           \<and> (\<exists>j items. json_body resp = Inr j \<and> py_iter j = Inr items)))"

text \<open>
  A raw item lacks one of the fields \<^verbatim>\<open>id\<close>, \<^verbatim>\<open>link\<close>, \<^verbatim>\<open>modified\<close> (a value that
  is not a dictionary has none of them).
\<close>

definition missing_required :: "json \<Rightarrow> bool" where
  "missing_required article =
     (case article of
        JObj kvs \<Rightarrow> map_of kvs ''id'' = None \<or> map_of kvs ''link'' = None
                      \<or> map_of kvs ''modified'' = None
      | _ \<Rightarrow> True)"

section \<open>Inputs for the examples\<close>

text \<open>A site without state that answers every request with the same response.\<close>

definition const_site :: "response \<Rightarrow> unit server" where
  "const_site resp w req = (Inr resp, w)"

text \<open>
  A site that answers every request with status 200, the given value of the header
  \<^verbatim>\<open>X-WP-TotalPages\<close> and the given body; and one that sends no such header and an
  empty listing.
\<close>

definition paged_site :: "string \<Rightarrow> json \<Rightarrow> unit server" where
  "paged_site hdr body =
     const_site \<lparr>status_code = 200, headers = [(''X-WP-TotalPages'', hdr)],
                 json_body = Inr body\<rparr>"

definition quiet_site :: "unit server" where
  "quiet_site = const_site \<lparr>status_code = 200, headers = [], json_body = Inr (JArr [])\<rparr>"

text \<open>
  A site that serves one listing (one page, no page-count header) at the address
  \<open>u\<close> and answers status 500 anywhere else.
\<close>

definition one_listing_site :: "string \<Rightarrow> json \<Rightarrow> unit server" where
  "one_listing_site u body w req =
     (if req_url req = u
      then (Inr \<lparr>status_code = 200, headers = [], json_body = Inr body\<rparr>, w)
      else (Inr \<lparr>status_code = 500, headers = [], json_body = Inr JNull\<rparr>, w))"

text \<open>
  A site in the manner of WordPress for the type \<^verbatim>\<open>pages\<close> with three pages of
  entries: the requests for its pages 1 to 3 are answered with the total 3 and an
  (empty) listing, any other request with status 400.
\<close>

definition three_pages_site :: "unit server" where
  "three_pages_site w req =
     (if req_url req \<in> set [''https://example.com/wp-json/wp/v2/pages?per_page=100&page=1'',
                              ''https://example.com/wp-json/wp/v2/pages?per_page=100&page=2'',
                              ''https://example.com/wp-json/wp/v2/pages?per_page=100&page=3'']
      then (Inr \<lparr>status_code = 200, headers = [(''X-WP-TotalPages'', ''3'')],
                 json_body = Inr (JArr [])\<rparr>, w)
      else (Inr \<lparr>status_code = 400, headers = [], json_body = Inr JNull\<rparr>, w))"

text \<open>An extractor for the examples: a string is its own text, anything else raises TypeError.\<close>

definition example_soup :: "json \<Rightarrow> error + string" where
  "example_soup v = (case v of JStr s \<Rightarrow> Inr s | _ \<Rightarrow> Inl TypeError)"

definition example_reader :: "int option \<Rightarrow> WordpressReader" where
  "example_reader lim =
     WordpressReader_init (\<lambda>_. 0) ''https://example.com'' None None True True None lim"

definition net0 :: "unit net" where
  "net0 = \<lparr>sent = [], world = ()\<rparr>"

text \<open>A well-formed raw item in the nested shape, with the given id, title and body.\<close>

definition nested_item :: "int \<Rightarrow> string \<Rightarrow> string \<Rightarrow> json" where
  "nested_item i t b =
     JObj [(''id'', JInt i), (''link'', JStr ''https://example.com/?p=1''),
           (''modified'', JStr ''2024-01-01T00:00:00''),
           (''title'', JObj [(''rendered'', JStr t)]),
           (''content'', JObj [(''rendered'', JStr b)])]"

text \<open>A raw item in the nested shape that lacks the field \<^verbatim>\<open>id\<close>.\<close>

definition item_without_id :: json where
  "item_without_id =
     JObj [(''link'', JStr ''https://example.com/?p=2''),
           (''modified'', JStr ''2024-01-02T00:00:00''),
           (''title'', JObj [(''rendered'', JStr ''Untitled'')]),
           (''content'', JObj [(''rendered'', JStr ''text'')])]"

section \<open>Facts about \<^verbatim>\<open>int\<close>\<close>

text \<open>
  The separators 28 to 31 are not whitespace for \<^verbatim>\<open>int\<close>, NBSP and NEL are; a
  string with more than 4300 digits is refused whatever else it holds.
\<close>

lemma filter_dropWhile_other:
  "(\<And>x. Q x \<Longrightarrow> \<not> P x) \<Longrightarrow> filter P (dropWhile Q xs) = filter P xs"
  by (induction xs) auto

lemma int_isspace_not_digit: "int_isspace c \<Longrightarrow> \<not> is_digit c"
  by (auto simp: int_isspace_def is_digit_def Let_def)

lemma digits_of_stripped:
  "length (filter is_digit (rev (dropWhile int_isspace (rev (dropWhile int_isspace s)))))
   = length (filter is_digit s)"
proof -
  have "filter is_digit (rev (dropWhile int_isspace (rev (dropWhile int_isspace s))))
      = rev (filter is_digit (dropWhile int_isspace (rev (dropWhile int_isspace s))))"
    by (simp add: rev_filter)
  also have "\<dots> = rev (filter is_digit (rev (dropWhile int_isspace s)))"
    by (simp add: filter_dropWhile_other int_isspace_not_digit)
  also have "\<dots> = filter is_digit (dropWhile int_isspace s)"
    by (simp add: rev_filter)
  also have "\<dots> = filter is_digit s"
    by (simp add: filter_dropWhile_other int_isspace_not_digit)
  finally show ?thesis by simp
qed

lemma py_int_too_many_digits:
  "length (filter is_digit s) > int_max_str_digits \<Longrightarrow> py_int s = Inl ValueError"
  by (simp add: py_int_def Let_def digits_of_stripped split: option.split)

lemma py_int_examples:
  "py_int [char_of (28::nat), CHR ''3''] = Inl ValueError
   \<and> py_int [char_of (160::nat), CHR ''3'', char_of (133::nat)] = Inr 3
   \<and> py_int '' -1_0 '' = Inr (- 10)
   \<and> py_int ''1__0'' = Inl ValueError
   \<and> py_int ''- 1'' = Inl ValueError"
  by code_simp

section \<open>Facts about one page fetch\<close>

lemma get_posts_page_sent:
  "sent (snd (get_posts_page srv self ty p s)) = sent s @ [page_request self ty p]"
  by (simp add: get_posts_page_def Let_def split: prod.splits sum.splits)

lemma get_posts_page_answered:
  assumes "srv (world s) (page_request self post_type p) = (Inr resp, w')"
    and "\<not> (400 \<le> status_code resp \<and> status_code resp < 600)"
  shows "get_posts_page srv self post_type p s =
     (case total_pages resp of
        Inl e \<Rightarrow> (Inl e, \<lparr>sent = sent s @ [page_request self post_type p], world = w'\<rparr>)
      | Inr num_pages \<Rightarrow>
          (case json_body resp of
             Inl e \<Rightarrow> (Inl e, \<lparr>sent = sent s @ [page_request self post_type p], world = w'\<rparr>)
           | Inr arts \<Rightarrow>
               (Inr \<lparr>articles = arts,
                     next_page = (if num_pages > p then Some (p + 1) else None)\<rparr>,
                \<lparr>sent = sent s @ [page_request self post_type p], world = w'\<rparr>)))"
  using assms by (auto simp: get_posts_page_def Let_def)

lemma get_posts_page_failed:
  assumes "srv (world s) (page_request self post_type p) = (Inl e, w')"
  shows "get_posts_page srv self post_type p s =
     (Inl e, \<lparr>sent = sent s @ [page_request self post_type p], world = w'\<rparr>)"
  using assms by (simp add: get_posts_page_def Let_def)

lemma get_posts_page_status:
  assumes "srv (world s) (page_request self post_type p) = (Inr resp, w')"
    and "400 \<le> status_code resp \<and> status_code resp < 600"
  shows "get_posts_page srv self post_type p s =
     (Inl (HTTPError (status_code resp)),
      \<lparr>sent = sent s @ [page_request self post_type p], world = w'\<rparr>)"
  using assms by (simp add: get_posts_page_def Let_def)

section \<open>Facts about the pagination loop\<close>

text \<open>One turn of the loop, case by case.\<close>

lemma posts_loop_error:
  "get_posts_page srv self post_type p s = (Inl e, s1) \<Longrightarrow>
   posts_loop srv self post_type posts p k s = Some (Inl e, s1)"
  by (subst posts_loop.simps) simp

lemma posts_loop_not_iterable:
  "get_posts_page srv self post_type p s = (Inr pg, s1) \<Longrightarrow>
   py_iter (articles pg) = Inl e \<Longrightarrow>
   posts_loop srv self post_type posts p k s = Some (Inl e, s1)"
  by (subst posts_loop.simps) simp

lemma posts_loop_stop:
  "get_posts_page srv self post_type p s = (Inr pg, s1) \<Longrightarrow>
   py_iter (articles pg) = Inr items \<Longrightarrow>
   next_page pg = None \<or> (\<exists>lim. page_limit self = Some lim \<and> lim \<le> k + 1) \<Longrightarrow>
   posts_loop srv self post_type posts p k s = Some (Inr (posts @ items), s1)"
  by (subst posts_loop.simps) (auto split: option.splits)

lemma posts_loop_continue:
  "get_posts_page srv self post_type p s = (Inr pg, s1) \<Longrightarrow>
   py_iter (articles pg) = Inr items \<Longrightarrow>
   next_page pg = Some np \<Longrightarrow>
   (\<forall>lim. page_limit self = Some lim \<longrightarrow> k + 1 < lim) \<Longrightarrow>
   posts_loop srv self post_type posts p k s
     = posts_loop srv self post_type (posts @ items) np (k + 1) s1"
  by (subst posts_loop.simps) (auto split: option.splits)

text \<open>
  The loop and the relation \<open>page_run\<close> agree: a run described by the relation is
  what the loop computes, and every successful return of the loop is such a run.
\<close>

lemma page_run_posts_loop:
  "page_run srv self post_type p k s batches s' \<Longrightarrow>
   posts_loop srv self post_type posts p k s = Some (Inr (posts @ concat batches), s')"
proof (induction arbitrary: posts rule: page_run.induct)
  case (last_page p s pg s' items k)
  then show ?case by (simp add: posts_loop_stop)
next
  case (more_pages p s pg s1 items np k batches s')
  from posts_loop_continue [OF more_pages(1-4), of posts] more_pages.IH [of "posts @ items"]
  show ?case by simp
qed


lemma posts_loop_page_run:
  assumes "posts_loop srv self post_type posts p k s = Some y"
  shows "\<forall>r s'. y = (Inr r, s') \<longrightarrow>
           (\<exists>batches. page_run srv self post_type p k s batches s' \<and> r = posts @ concat batches)"
proof (rule posts_loop.raw_induct [where P = "\<lambda>srv self post_type posts p k s y. \<forall>r s'. y = (Inr r, s') \<longrightarrow>
           (\<exists>batches. page_run srv self post_type p k s batches s' \<and> r = posts @ concat batches)",
    OF _ assms], goal_cases)
  case (1 loop srv self post_type posts p k s y)
  obtain res s1 where g: "get_posts_page srv self post_type p s = (res, s1)"
    by (cases "get_posts_page srv self post_type p s")
  show ?case
  proof (cases res)
    case (Inl e)
    with g "1"(2) show ?thesis by auto
  next
    case (Inr pg)
    note g' = g [unfolded Inr]
    show ?thesis
    proof (cases "py_iter (articles pg)")
      case (Inl e)
      with g' "1"(2) show ?thesis by auto
    next
      case it: (Inr items)
      show ?thesis
      proof (cases "next_page pg = None \<or> (\<exists>lim. page_limit self = Some lim \<and> lim \<le> k + 1)")
        case True
        with g' it "1"(2) have y: "y = (Inr (posts @ items), s1)"
          by (auto split: option.splits)
        from page_run.last_page [OF g' it True]
        have "page_run srv self post_type p k s [items] s1" .
        with y show ?thesis by auto
      next
        case False
        then obtain np where np: "next_page pg = Some np" by auto
        from False have nolim: "\<forall>lim. page_limit self = Some lim \<longrightarrow> k + 1 < lim"
          by auto
        from g' it np nolim "1"(2)
        have rec: "loop srv self post_type (posts @ items) np (k + 1) s1 = Some y"
          by (auto split: option.splits)
        show ?thesis
        proof (intro allI impI)
          fix r s'
          assume yy: "y = (Inr r, s')"
          from "1"(1) [OF rec] yy obtain batches where
            b: "page_run srv self post_type np (k + 1) s1 batches s'"
            and r: "r = (posts @ items) @ concat batches" by blast
          from page_run.more_pages [OF g' it np nolim b]
          have "page_run srv self post_type p k s (items # batches) s'" .
          with r show "\<exists>batches. page_run srv self post_type p k s batches s'
              \<and> r = posts @ concat batches"
            by (intro exI [of _ "items # batches"]) simp
        qed
      qed
    qed
  qed
qed

lemma get_all_posts_page_run:
  assumes "get_all_posts srv self post_type s = Some (Inr posts, s')"
  shows "\<exists>batches. page_run srv self post_type 1 0 s batches s' \<and> posts = concat batches"
proof -
  from assms have "posts_loop srv self post_type [] 1 0 s = Some (Inr posts, s')"
    by (simp add: get_all_posts_def)
  from posts_loop_page_run [OF this] show ?thesis by simp
qed

lemma page_run_sent:
  "page_run srv self post_type p k s batches s' \<Longrightarrow>
   length (sent s') = length (sent s) + length batches"
proof (induction rule: page_run.induct)
  case (last_page p s pg s' items k)
  from get_posts_page_sent [of srv self post_type p s] last_page(1)
  show ?case by simp
next
  case (more_pages p s pg s1 items np k batches s')
  from get_posts_page_sent [of srv self post_type p s] more_pages(1) more_pages.IH
  show ?case by simp
qed

text \<open>Whenever the loop returns, with a result or an exception, it has issued a request.\<close>

lemma posts_loop_sent:
  assumes "posts_loop srv self post_type posts p k s = Some y"
  shows "length (sent s) < length (sent (snd y))"
proof (rule posts_loop.raw_induct [where P = "\<lambda>srv self post_type posts p k s y. length (sent s) < length (sent (snd y))",
    OF _ assms], goal_cases)
  case (1 loop srv self post_type posts p k s y)
  obtain res s1 where g: "get_posts_page srv self post_type p s = (res, s1)"
    by (cases "get_posts_page srv self post_type p s")
  from get_posts_page_sent [of srv self post_type p s] g
  have s1: "length (sent s) < length (sent s1)" by simp
  from g "1"(2)
  have "snd y = s1 \<or> (\<exists>posts' np k'. loop srv self post_type posts' np k' s1 = Some y)"
    by (auto split: sum.splits option.splits if_splits)
  then show ?case
  proof
    assume "snd y = s1"
    with s1 show ?thesis by simp
  next
    assume "\<exists>posts' np k'. loop srv self post_type posts' np k' s1 = Some y"
    then obtain posts' np k' where
      rec: "loop srv self post_type posts' np k' s1 = Some y" by blast
    from "1"(1) [OF rec] s1 show ?thesis by simp
  qed
qed

text \<open>
  When the answers to the requests for the pages 1 to \<open>m\<close> of a type all report the
  total \<open>t\<close>, where \<open>m\<close> is \<open>max 1 t\<close>, cut at the page limit when there is one, the
  loop started at page \<open>p\<close> with \<open>p - 1\<close> pages fetched returns after the pages \<open>p\<close>
  to \<open>m\<close>.
\<close>

lemma pages_report_page:
  assumes rep: "pages_report srv self post_type w t m"
    and p: "1 \<le> p" "p \<le> m"
    and w: "world s = world_after srv self post_type w (nat (p - 1))"
  shows "\<exists>arts items.
     get_posts_page srv self post_type p s =
       (Inr \<lparr>articles = arts, next_page = (if t > p then Some (p + 1) else None)\<rparr>,
        \<lparr>sent = sent s @ [page_request self post_type p],
         world = world_after srv self post_type w (nat p)\<rparr>)
     \<and> py_iter arts = Inr items"
proof -
  let ?n = "nat (p - 1)"
  from p have n: "int ?n < m" and sn: "int (Suc ?n) = p" and np: "nat p = Suc ?n" by auto
  from rep n obtain resp j items where
    f: "fst (srv (world_after srv self post_type w ?n)
               (page_request self post_type (int (Suc ?n)))) = Inr resp"
    and st: "\<not> (400 \<le> status_code resp \<and> status_code resp < 600)"
    and tp: "total_pages resp = Inr t"
    and jb: "json_body resp = Inr j" and it: "py_iter j = Inr items"
    unfolding pages_report_def by blast
  have w': "world_after srv self post_type w (nat p)
      = snd (srv (world s) (page_request self post_type p))"
    unfolding np using w sn by simp
  from f w sn have "fst (srv (world s) (page_request self post_type p)) = Inr resp" by simp
  with w' have a: "srv (world s) (page_request self post_type p)
      = (Inr resp, world_after srv self post_type w (nat p))"
    by (simp add: prod_eq_iff)
  from get_posts_page_answered [where srv = srv and s = s, OF a st] tp jb
  have "get_posts_page srv self post_type p s =
       (Inr \<lparr>articles = j, next_page = (if t > p then Some (p + 1) else None)\<rparr>,
        \<lparr>sent = sent s @ [page_request self post_type p],
         world = world_after srv self post_type w (nat p)\<rparr>)"
    by simp
  with it show ?thesis by blast
qed

lemma pages_report_loop:
  assumes rep: "pages_report srv self post_type w t m"
    and lim: "(page_limit self = None \<and> m = max 1 t)
              \<or> (\<exists>N. page_limit self = Some N \<and> 1 \<le> N \<and> m = min (max 1 t) N)"
  shows "1 \<le> p \<Longrightarrow> p \<le> m \<Longrightarrow>
     world s = world_after srv self post_type w (nat (p - 1)) \<Longrightarrow>
     \<exists>posts' s'. posts_loop srv self post_type posts p (p - 1) s = Some (Inr posts', s')
        \<and> sent s' = sent s @ map (page_request self post_type) [p..m]"
proof (induction "nat (m - p)" arbitrary: p posts s)
  case 0
  then have pm: "p = m" by simp
  from pages_report_page [OF rep "0.prems"] obtain arts items where
    g: "get_posts_page srv self post_type p s =
       (Inr \<lparr>articles = arts, next_page = (if t > p then Some (p + 1) else None)\<rparr>,
        \<lparr>sent = sent s @ [page_request self post_type p],
         world = world_after srv self post_type w (nat p)\<rparr>)"
    and it: "py_iter (articles \<lparr>articles = arts,
        next_page = (if t > p then Some (p + 1) else None)\<rparr>) = Inr items"
    by auto
  from lim pm "0.prems"(1)
  have stop: "next_page \<lparr>articles = arts, next_page = (if t > p then Some (p + 1) else None)\<rparr> = None
      \<or> (\<exists>lim. page_limit self = Some lim \<and> lim \<le> (p - 1) + 1)"
    by auto
  from posts_loop_stop [OF g it stop, of posts] pm
  show ?case by simp
next
  case (Suc n)
  then have lt: "p < m" by simp
  with lim Suc.prems(1) have pt: "p < t" by auto
  from lim lt have nolim: "\<forall>lim. page_limit self = Some lim \<longrightarrow> (p - 1) + 1 < lim" by auto
  from pages_report_page [OF rep Suc.prems] pt obtain arts items where
    g: "get_posts_page srv self post_type p s =
       (Inr \<lparr>articles = arts, next_page = Some (p + 1)\<rparr>,
        \<lparr>sent = sent s @ [page_request self post_type p],
         world = world_after srv self post_type w (nat p)\<rparr>)"
    and it: "py_iter (articles \<lparr>articles = arts, next_page = Some (p + 1)\<rparr>) = Inr items"
    by auto
  let ?s1 = "\<lparr>sent = sent s @ [page_request self post_type p],
         world = world_after srv self post_type w (nat p)\<rparr>"
  have np: "next_page \<lparr>articles = arts, next_page = Some (p + 1)\<rparr> = Some (p + 1)" by simp
  note step = posts_loop_continue [OF g it np nolim, of posts]
  from Suc.hyps(2) have n: "n = nat (m - (p + 1))" by simp
  from Suc.prems(1) lt have a1: "1 \<le> p + 1" and a2: "p + 1 \<le> m" by simp_all
  have a3: "world ?s1 = world_after srv self post_type w (nat (p + 1 - 1))" by simp
  from Suc.hyps(1) [OF n a1 a2 a3, of "posts @ items"]
  obtain posts' s' where
    r: "posts_loop srv self post_type (posts @ items) (p + 1) (p + 1 - 1) ?s1
          = Some (Inr posts', s')"
    and se: "sent s' = sent ?s1 @ map (page_request self post_type) [p + 1..m]"
    by auto
  from lt have "[p..m] = p # [p + 1..m]" by (simp add: upto_rec1)
  with step r se show ?case by simp
qed

lemma pages_report_get_all_posts:
  assumes rep: "pages_report srv self post_type (world s) t m"
    and lim: "(page_limit self = None \<and> m = max 1 t)
              \<or> (\<exists>N. page_limit self = Some N \<and> 1 \<le> N \<and> m = min (max 1 t) N)"
  shows "\<exists>posts s'. get_all_posts srv self post_type s = Some (Inr posts, s')
        \<and> sent s' = sent s @ map (page_request self post_type) [1..m]
        \<and> int (length (sent s')) = int (length (sent s)) + m
        \<and> (\<exists>batches. page_run srv self post_type 1 0 s batches s'
               \<and> posts = concat batches \<and> int (length batches) = m)"
proof -
  from lim have m: "1 \<le> m" by auto
  have w: "world s = world_after srv self post_type (world s) (nat (1 - 1))" by simp
  from pages_report_loop [OF rep lim _ m w, of "[]"]
  obtain posts s' where
    r: "posts_loop srv self post_type [] 1 0 s = Some (Inr posts, s')"
    and se: "sent s' = sent s @ map (page_request self post_type) [1..m]"
    by auto
  from se m have le: "int (length (sent s')) = int (length (sent s)) + m" by simp
  from r have g: "get_all_posts srv self post_type s = Some (Inr posts, s')"
    by (simp add: get_all_posts_def)
  from get_all_posts_page_run [OF g] obtain batches where
    b: "page_run srv self post_type 1 0 s batches s'" and c: "posts = concat batches"
    by blast
  from page_run_sent [OF b] le have "int (length batches) = m" by simp
  with g se le b c show ?thesis by blast
qed

section \<open>Facts about \<^verbatim>\<open>load_data\<close>\<close>

text \<open>
  The two loops of \<^verbatim>\<open>load_data\<close>: the articles are the batches of all types, type
  after type; the documents are the articles' documents, one for one and in order.
\<close>

lemma load_articles_types_run:
  "load_articles srv self types arts s = Some (Inr arts', s') \<Longrightarrow>
   \<exists>bss. types_run srv self types s bss s' \<and> arts' = arts @ concat (map concat bss)"
proof (induction types arbitrary: arts s)
  case Nil
  then have "s' = s" "arts' = arts" by simp_all
  with types_run.no_types [of srv self s] show ?case by auto
next
  case (Cons post_type rest)
  from Cons.prems obtain posts s1 where
    g: "get_all_posts srv self post_type s = Some (Inr posts, s1)"
    and r: "load_articles srv self rest (arts @ posts) s1 = Some (Inr arts', s')"
    by (auto split: option.splits sum.splits)
  from get_all_posts_page_run [OF g] obtain batches where
    b: "page_run srv self post_type 1 0 s batches s1" and p: "posts = concat batches" by blast
  from Cons.IH [OF r] obtain bss where
    t: "types_run srv self rest s1 bss s'" and a: "arts' = (arts @ posts) @ concat (map concat bss)"
    by blast
  from types_run.next_type [OF b t] a p show ?case
    by (intro exI [of _ "batches # bss"]) simp
qed

lemma process_articles_documents:
  "process_articles soup arts results = Inr docs \<Longrightarrow>
   \<exists>ds. docs = results @ ds \<and> list_all2 (\<lambda>a d. article_to_document soup a = Inr d) arts ds"
proof (induction arts arbitrary: results)
  case Nil
  then show ?case by simp
next
  case (Cons article rest)
  from Cons.prems obtain d where
    d: "article_to_document soup article = Inr d"
    and r: "process_articles soup rest (results @ [d]) = Inr docs"
    by (auto split: sum.splits)
  from Cons.IH [OF r] obtain ds where
    "docs = (results @ [d]) @ ds"
    "list_all2 (\<lambda>a d. article_to_document soup a = Inr d) rest ds" by blast
  with d show ?case by (intro exI [of _ "d # ds"]) simp
qed

text \<open>The set of post types that \<^verbatim>\<open>__init__\<close> builds has no duplicates, in any order.\<close>

lemma set_add_set: "set (set_add xs x) = insert x (set xs)"
  by (auto simp: set_add_def)

lemma set_add_distinct: "distinct xs \<Longrightarrow> distinct (set_add xs x)"
  by (simp add: set_add_def)

lemma set_update_set: "set (set_update xs ys) = set xs \<union> set ys"
  unfolding set_update_def by (induction ys arbitrary: xs) (auto simp: set_add_set)

lemma set_update_distinct: "distinct xs \<Longrightarrow> distinct (set_update xs ys)"
  unfolding set_update_def by (induction ys arbitrary: xs) (auto simp: set_add_distinct)

lemma set_to_list_set: "set (set_to_list h xs) = set xs"
  by (simp add: set_to_list_def)

lemma set_to_list_distinct: "distinct (set_to_list h xs) = distinct xs"
  by (simp add: set_to_list_def)

text \<open>
  The key \<open>h\<close> does not restrict the order in which a set is listed: every
  arrangement of the elements is the listing for some key.
\<close>

lemma increasing_key_exists:
  "distinct ys \<Longrightarrow> \<exists>h :: 'a \<Rightarrow> nat. sorted (map h ys) \<and> inj_on h (set ys)"
proof (induction ys)
  case Nil
  then show ?case by simp
next
  case (Cons y ys)
  then obtain h :: "'a \<Rightarrow> nat" where s: "sorted (map h ys)" and i: "inj_on h (set ys)" by auto
  let ?h = "\<lambda>x. if x = y then 0 else Suc (h x)"
  from Cons.prems have ny: "y \<notin> set ys" by simp
  then have m: "map ?h ys = map Suc (map h ys)" by (induction ys) auto
  from s have "sorted (map Suc (map h ys))" by (simp add: sorted_map sorted_wrt_map)
  then have "sorted (map ?h ys)" unfolding m .
  then have 1: "sorted (map ?h (y # ys))" by simp
  from i have 2: "inj_on ?h (set (y # ys))" by (auto simp: inj_on_def)
  from 1 2 show ?case by blast
qed

lemma set_to_list_any_order:
  assumes "distinct xs" and "distinct ys" and "set ys = set xs"
  shows "\<exists>h. set_to_list h xs = ys"
proof -
  from increasing_key_exists [OF assms(2)] obtain h :: "string \<Rightarrow> nat" where
    s: "sorted (map h ys)" and i: "inj_on h (set ys)" by blast
  let ?zs = "sort_key h xs"
  have z: "sorted (map h ?zs)" "distinct ?zs" "set ?zs = set ys"
    using assms by simp_all
  from i z have dz: "distinct (map h ?zs)" by (simp add: distinct_map)
  from i assms have dy: "distinct (map h ys)" by (simp add: distinct_map)
  from z have "set (map h ?zs) = set (map h ys)" by simp
  with z(1) dz s dy have "map h ?zs = map h ys" by (intro sorted_distinct_set_unique)
  with i z(3) have "?zs = ys" by (simp add: inj_on_map_eq_map)
  then show ?thesis by (auto simp: set_to_list_def)
qed

lemma init_post_types_distinct:
  "distinct (post_types (WordpressReader_init h u un pw gp gpo add lim))"
  by (simp add: WordpressReader_init_def Let_def set_to_list_distinct set_update_distinct
      set_add_distinct split: option.split)

text \<open>
  Normalization stops at the first article that raises; an article that lacks
  \<^verbatim>\<open>id\<close>, \<^verbatim>\<open>link\<close> or \<^verbatim>\<open>modified\<close> always raises, and raises the KeyError of its
  first missing field when its body, text and title are obtained without exception.
\<close>

lemma article_missing_fails:
  assumes "missing_required article"
  shows "\<exists>e. article_to_document soup article = Inl e"
proof (cases article)
  case (JObj kvs)
  with assms have m: "map_of kvs ''id'' = None \<or> map_of kvs ''link'' = None
      \<or> map_of kvs ''modified'' = None"
    by (simp add: missing_required_def)
  then show ?thesis unfolding JObj article_to_document_def
    by (auto split: sum.splits option.splits)
qed (simp_all add: article_to_document_def resolve_body_def)

lemma article_missing_key_error:
  assumes "missing_required (JObj kvs)"
    and "resolve_body (JObj kvs) = Inr b" and "soup b = Inr plain"
    and "resolve_title (JObj kvs) = Inr ttl"
  shows "\<exists>k. (k = ''id'' \<or> k = ''link'' \<or> k = ''modified'') \<and> map_of kvs k = None
            \<and> article_to_document soup (JObj kvs) = Inl (KeyError k)"
proof -
  from assms(1) have m: "map_of kvs ''id'' = None \<or> map_of kvs ''link'' = None
      \<or> map_of kvs ''modified'' = None"
    by (simp add: missing_required_def)
  show ?thesis
  proof (cases "map_of kvs ''id''")
    case None
    with assms(2-4) have "article_to_document soup (JObj kvs) = Inl (KeyError ''id'')"
      by (simp add: article_to_document_def)
    with None show ?thesis by blast
  next
    case i: (Some vi)
    show ?thesis
    proof (cases "map_of kvs ''link''")
      case None
      with i assms(2-4) have "article_to_document soup (JObj kvs) = Inl (KeyError ''link'')"
        by (simp add: article_to_document_def)
      with None show ?thesis by blast
    next
      case l: (Some vl)
      with i m have n: "map_of kvs ''modified'' = None" by simp
      with i l assms(2-4)
      have "article_to_document soup (JObj kvs) = Inl (KeyError ''modified'')"
        by (simp add: article_to_document_def)
      with n show ?thesis by blast
    qed
  qed
qed

lemma process_articles_first_failure:
  "\<forall>x \<in> set pre. \<exists>d. article_to_document soup x = Inr d \<Longrightarrow>
   article_to_document soup a = Inl e \<Longrightarrow>
   process_articles soup (pre @ a # post) results = Inl e"
  by (induction pre arbitrary: results) auto

lemma process_articles_all_normalize:
  "process_articles soup arts results = Inr docs \<Longrightarrow>
   a \<in> set arts \<Longrightarrow> \<exists>d. article_to_document soup a = Inr d"
  by (induction arts arbitrary: results) (auto split: sum.splits)

lemma process_articles_missing:
  assumes "a \<in> set arts" and "missing_required a"
  shows "\<exists>e. process_articles soup arts results = Inl e"
proof (cases "process_articles soup arts results")
  case (Inl e)
  then show ?thesis by blast
next
  case (Inr docs)
  from process_articles_all_normalize [OF Inr assms(1)] article_missing_fails [OF assms(2), of soup]
  show ?thesis by auto
qed

lemma load_data_missing_fails:
  assumes "load_articles srv self (post_types self) [] s = Some (Inr arts, s')"
    and "a \<in> set arts" and "missing_required a"
  shows "\<exists>e. load_data srv soup self s = Some (Inl e, s')"
  using process_articles_missing [OF assms(2,3), of soup "[]"] assms(1)
  by (auto simp: load_data_def)

lemma load_data_key_error:
  assumes "load_articles srv self (post_types self) [] s = Some (Inr (pre @ JObj kvs # post), s')"
    and pre: "\<forall>x \<in> set pre. \<exists>d. article_to_document soup x = Inr d"
    and m: "missing_required (JObj kvs)"
    and b: "resolve_body (JObj kvs) = Inr b" and t: "soup b = Inr plain"
    and ti: "resolve_title (JObj kvs) = Inr ttl"
  shows "\<exists>k. (k = ''id'' \<or> k = ''link'' \<or> k = ''modified'') \<and> map_of kvs k = None
            \<and> load_data srv soup self s = Some (Inl (KeyError k), s')"
proof -
  from article_missing_key_error [where soup = soup, OF m b t ti] obtain k where
    k: "k = ''id'' \<or> k = ''link'' \<or> k = ''modified''" "map_of kvs k = None"
    and e: "article_to_document soup (JObj kvs) = Inl (KeyError k)" by blast
  from process_articles_first_failure [OF pre e, of post "[]"] assms(1)
  have "load_data srv soup self s = Some (Inl (KeyError k), s')"
    by (simp add: load_data_def)
  with k show ?thesis by blast
qed

text \<open>
  On the site that answers every request with an empty listing and no page-count
  header, \<^verbatim>\<open>load_data\<close> requests page 1 of every configured post type, in order.
  The additional post types given to \<^verbatim>\<open>__init__\<close> are all among the post types.
\<close>

lemma quiet_site_get_all_posts:
  "get_all_posts quiet_site self post_type s
   = Some (Inr [], \<lparr>sent = sent s @ [page_request self post_type 1], world = world s\<rparr>)"
proof -
  let ?resp = "\<lparr>status_code = 200, headers = [], json_body = Inr (JArr [])\<rparr>"
  have a: "quiet_site (world s) (page_request self post_type 1) = (Inr ?resp, world s)"
    by (simp add: quiet_site_def const_site_def)
  have st: "\<not> (400 \<le> status_code ?resp \<and> status_code ?resp < 600)" by simp
  have tp: "total_pages ?resp = Inr 1" by (simp add: total_pages_def)
  from get_posts_page_answered [where srv = quiet_site and s = s, OF a st] tp
  have g: "get_posts_page quiet_site self post_type 1 s
     = (Inr \<lparr>articles = JArr [], next_page = None\<rparr>,
        \<lparr>sent = sent s @ [page_request self post_type 1], world = world s\<rparr>)"
    by simp
  have it: "py_iter (articles \<lparr>articles = JArr [], next_page = None\<rparr>) = Inr []" by simp
  have stop: "next_page \<lparr>articles = JArr [], next_page = None\<rparr> = None
      \<or> (\<exists>lim. page_limit self = Some lim \<and> lim \<le> 0 + 1)" by simp
  from posts_loop_stop [OF g it stop, of "[]"] show ?thesis
    by (simp add: get_all_posts_def)
qed

lemma quiet_site_load_articles:
  "load_articles quiet_site self types arts (s :: unit net)
   = Some (Inr arts, \<lparr>sent = sent s @ map (\<lambda>t. page_request self t 1) types, world = world s\<rparr>)"
  by (induction types arbitrary: s) (simp_all add: quiet_site_get_all_posts)

lemma quiet_site_load_data:
  "load_data quiet_site soup self (s :: unit net)
   = Some (Inr [], \<lparr>sent = sent s @ map (\<lambda>t. page_request self t 1) (post_types self),
                    world = world s\<rparr>)"
  by (simp add: load_data_def quiet_site_load_articles)

lemma init_post_types_additional:
  "a \<noteq> [] \<Longrightarrow>
   set (map py_strip (py_split CHR '','' a))
     \<subseteq> set (post_types (WordpressReader_init h u un pw gp gpo (Some a) lim))"
  by (simp add: WordpressReader_init_def Let_def set_to_list_set set_update_set)

lemma init_url: "url (WordpressReader_init h u un pw gp gpo add lim) = u"
  by (simp add: WordpressReader_init_def Let_def)

lemma str_of_int_1: "str_of_int 1 = ''1''"
  by code_simp

text \<open>
  The example site with three pages of \<^verbatim>\<open>pages\<close> gives such answers, though it
  refuses every other request.
\<close>

lemma str_of_int_2: "str_of_int 2 = ''2''"
  by code_simp

lemma str_of_int_3: "str_of_int 3 = ''3''"
  by code_simp

lemma three_pages_site_answers:
  assumes "p = 1 \<or> p = 2 \<or> p = 3"
  shows "three_pages_site w (page_request (example_reader lim) ''pages'' p)
     = (Inr \<lparr>status_code = 200, headers = [(''X-WP-TotalPages'', ''3'')],
              json_body = Inr (JArr [])\<rparr>, w)"
  using assms
  by (auto simp: three_pages_site_def page_request_def example_reader_def init_url
      str_of_int_1 str_of_int_2 str_of_int_3)

lemma three_pages_site_reports:
  assumes "m \<le> 3"
  shows "pages_report three_pages_site (example_reader lim) ''pages'' w 3 m"
  unfolding pages_report_def
proof (intro allI impI)
  fix n :: nat
  assume "int n < m"
  with assms have "int (Suc n) = 1 \<or> int (Suc n) = 2 \<or> int (Suc n) = 3" by auto
  from three_pages_site_answers [OF this]
  have a: "fst (three_pages_site (world_after three_pages_site (example_reader lim) ''pages'' w n)
             (page_request (example_reader lim) ''pages'' (int (Suc n))))
      = Inr \<lparr>status_code = 200, headers = [(''X-WP-TotalPages'', ''3'')],
              json_body = Inr (JArr [])\<rparr>"
    by simp
  have tp: "total_pages \<lparr>status_code = 200, headers = [(''X-WP-TotalPages'', ''3'')],
              json_body = Inr (JArr [])\<rparr> = Inr 3"
    by code_simp
  from a tp
  show "\<exists>resp. fst (three_pages_site
                     (world_after three_pages_site (example_reader lim) ''pages'' w n)
                     (page_request (example_reader lim) ''pages'' (int (Suc n)))) = Inr resp
           \<and> \<not> (400 \<le> status_code resp \<and> status_code resp < 600)
           \<and> total_pages resp = Inr 3
           \<and> (\<exists>j items. json_body resp = Inr j \<and> py_iter j = Inr items)"
    by simp
qed

section \<open>The claims\<close>

subsection \<open>C1: the total page count header\<close>

text \<open>
  The claim C1 as written (an unparseable header counts as one page and raises nothing)
  fails: a response with status 200 whose header \<^verbatim>\<open>X-WP-TotalPages\<close> is \<^verbatim>\<open>abc\<close>
  makes \<^verbatim>\<open>get_posts_page\<close> raise ValueError, since \<^verbatim>\<open>int("abc")\<close> raises.
\<close>

theorem C1_unparseable_header_counterexample:
  "get_posts_page
     (const_site \<lparr>status_code = 200, headers = [(''X-WP-TotalPages'', ''abc'')],
                  json_body = Inr (JArr [])\<rparr>)
     (example_reader None) ''posts'' 1 net0
   = (Inl ValueError, \<lparr>sent = [page_request (example_reader None) ''posts'' 1], world = ()\<rparr>)"
  by code_simp

text \<open>
  C1, amended: on a response whose status is not an error status, an absent header
  gives the total page count 1 and the header raises nothing (the call returns the
  page with \<^verbatim>\<open>next_page\<close> computed from 1, unless decoding the body raises); a
  header that \<^verbatim>\<open>int\<close> cannot parse makes the call raise ValueError.
\<close>

theorem C1_total_pages_header:
  assumes "srv (world s) (page_request self post_type p) = (Inr resp, w')"
    and "\<not> (400 \<le> status_code resp \<and> status_code resp < 600)"
  shows "(header_get (headers resp) ''X-WP-TotalPages'' = None \<longrightarrow>
            total_pages resp = Inr 1 \<and>
            fst (get_posts_page srv self post_type p s) =
              (case json_body resp of
                 Inl e \<Rightarrow> Inl e
               | Inr arts \<Rightarrow> Inr \<lparr>articles = arts,
                                 next_page = (if 1 > p then Some (p + 1) else None)\<rparr>))
       \<and> (\<forall>v. header_get (headers resp) ''X-WP-TotalPages'' = Some v \<and> py_int v = Inl ValueError \<longrightarrow>
            fst (get_posts_page srv self post_type p s) = Inl ValueError)"
proof (intro conjI impI allI)
  assume "header_get (headers resp) ''X-WP-TotalPages'' = None"
  then show "total_pages resp = Inr 1" by (simp add: total_pages_def)
next
  assume "header_get (headers resp) ''X-WP-TotalPages'' = None"
  then have "total_pages resp = Inr 1" by (simp add: total_pages_def)
  then show "fst (get_posts_page srv self post_type p s) =
              (case json_body resp of
                 Inl e \<Rightarrow> Inl e
               | Inr arts \<Rightarrow> Inr \<lparr>articles = arts,
                                 next_page = (if 1 > p then Some (p + 1) else None)\<rparr>)"
    by (simp add: get_posts_page_answered [where srv = srv and s = s, OF assms] split: sum.split)
next
  fix v
  assume "header_get (headers resp) ''X-WP-TotalPages'' = Some v \<and> py_int v = Inl ValueError"
  then have "total_pages resp = Inl ValueError" by (simp add: total_pages_def)
  then show "fst (get_posts_page srv self post_type p s) = Inl ValueError"
    by (simp add: get_posts_page_answered [where srv = srv and s = s, OF assms])
qed

theorem C1_total_pages_header_witness:
  "(total_pages \<lparr>status_code = 200, headers = [], json_body = Inr (JArr [])\<rparr> = Inr 1 \<and>
    fst (get_posts_page
          (const_site \<lparr>status_code = 200, headers = [], json_body = Inr (JArr [])\<rparr>)
          (example_reader None) ''posts'' 1 net0)
      = Inr \<lparr>articles = JArr [], next_page = None\<rparr>)
   \<and> py_int ''abc'' = Inl ValueError
   \<and> fst (get_posts_page
          (const_site \<lparr>status_code = 200, headers = [(''X-WP-TotalPages'', ''abc'')],
                       json_body = Inr (JArr [])\<rparr>)
          (example_reader None) ''posts'' 1 net0)
      = Inl ValueError"
proof -
  let ?r1 = "\<lparr>status_code = 200, headers = [], json_body = Inr (JArr [])\<rparr>"
  let ?r2 = "\<lparr>status_code = 200, headers = [(''X-WP-TotalPages'', ''abc'')],
              json_body = Inr (JArr [])\<rparr>"
  have a1: "const_site ?r1 (world net0) (page_request (example_reader None) ''posts'' 1) = (Inr ?r1, ())"
    by (simp add: const_site_def)
  have a2: "const_site ?r2 (world net0) (page_request (example_reader None) ''posts'' 1) = (Inr ?r2, ())"
    by (simp add: const_site_def)
  have s1: "\<not> (400 \<le> status_code ?r1 \<and> status_code ?r1 < 600)" by simp
  have s2: "\<not> (400 \<le> status_code ?r2 \<and> status_code ?r2 < 600)" by simp
  have h1: "header_get (headers ?r1) ''X-WP-TotalPages'' = None" by simp
  have h2: "header_get (headers ?r2) ''X-WP-TotalPages'' = Some ''abc''" by code_simp
  have p: "py_int ''abc'' = Inl ValueError" by code_simp
  note t1 = C1_total_pages_header [where srv = "const_site ?r1" and s = net0
      and self = "example_reader None" and post_type = "''posts''" and p = 1, OF a1 s1]
  note t2 = C1_total_pages_header [where srv = "const_site ?r2" and s = net0
      and self = "example_reader None" and post_type = "''posts''" and p = 1, OF a2 s2]
  note c1 = t1 [THEN conjunct1, THEN mp, OF h1]
  note c2 = t2 [THEN conjunct2, THEN spec, THEN mp, OF conjI [OF h2 p]]
  from c1 have c1': "total_pages ?r1 = Inr 1 \<and>
    fst (get_posts_page (const_site ?r1) (example_reader None) ''posts'' 1 net0)
      = Inr \<lparr>articles = JArr [], next_page = None\<rparr>"
    by simp
  show ?thesis
  proof (intro conjI)
    show "total_pages ?r1 = Inr 1" using c1' by (rule conjunct1)
    show "fst (get_posts_page (const_site ?r1) (example_reader None) ''posts'' 1 net0)
      = Inr \<lparr>articles = JArr [], next_page = None\<rparr>" using c1' by (rule conjunct2)
    show "py_int ''abc'' = Inl ValueError" by (rule p)
    show "fst (get_posts_page (const_site ?r2) (example_reader None) ''posts'' 1 net0) = Inl ValueError"
      by (rule c2)
  qed
qed

subsection \<open>C7: the next page\<close>

text \<open>
  C7: whenever \<^verbatim>\<open>get_posts_page\<close> returns for page \<open>p\<close>, the site answered with a
  response whose total page count parsed to some \<open>t\<close>, and the returned
  \<^verbatim>\<open>next_page\<close> is \<open>p + 1\<close> when \<open>t > p\<close> and \<^verbatim>\<open>None\<close> when \<open>t \<le> p\<close>.
\<close>

theorem C7_next_page:
  assumes "get_posts_page srv self post_type p s = (Inr pg, s')"
  shows "\<exists>resp t. fst (srv (world s) (page_request self post_type p)) = Inr resp
      \<and> total_pages resp = Inr t
      \<and> next_page pg = (if t > p then Some (p + 1) else None)"
proof -
  obtain r w' where srv: "srv (world s) (page_request self post_type p) = (r, w')"
    by (cases "srv (world s) (page_request self post_type p)")
  show ?thesis
  proof (cases r)
    case (Inl e)
    with srv assms get_posts_page_failed [where srv = srv and s = s and self = self
        and post_type = post_type and p = p and e = e and w' = w']
    show ?thesis by simp
  next
    case (Inr resp)
    note ans = srv [unfolded Inr]
    show ?thesis
    proof (cases "400 \<le> status_code resp \<and> status_code resp < 600")
      case True
      from get_posts_page_status [where srv = srv and s = s, OF ans True] assms
      show ?thesis by simp
    next
      case False
      note eq = get_posts_page_answered [where srv = srv and s = s, OF ans False]
      show ?thesis
      proof (cases "total_pages resp")
        case (Inl e)
        with eq assms show ?thesis by simp
      next
        case tp: (Inr t)
        show ?thesis
        proof (cases "json_body resp")
          case (Inl e)
          with eq assms tp show ?thesis by simp
        next
          case (Inr arts)
          with eq assms tp
          have "pg = \<lparr>articles = arts, next_page = (if t > p then Some (p + 1) else None)\<rparr>"
            by simp
          then have "next_page pg = (if t > p then Some (p + 1) else None)" by simp
          with ans tp show ?thesis by simp
        qed
      qed
    qed
  qed
qed

theorem C7_next_page_witness:
  "get_posts_page
     (const_site \<lparr>status_code = 200, headers = [(''X-WP-TotalPages'', ''3'')],
                  json_body = Inr (JArr [])\<rparr>)
     (example_reader None) ''posts'' 2 net0
   = (Inr \<lparr>articles = JArr [], next_page = Some 3\<rparr>,
      \<lparr>sent = [page_request (example_reader None) ''posts'' 2], world = ()\<rparr>)
   \<and> (\<exists>resp t. fst (const_site \<lparr>status_code = 200, headers = [(''X-WP-TotalPages'', ''3'')],
                  json_body = Inr (JArr [])\<rparr> (world net0) (page_request (example_reader None) ''posts'' 2)) = Inr resp
      \<and> total_pages resp = Inr t
      \<and> next_page \<lparr>articles = JArr [], next_page = Some 3\<rparr> = (if t > 2 then Some (2 + 1) else None))"
proof -
  have h: "get_posts_page
     (const_site \<lparr>status_code = 200, headers = [(''X-WP-TotalPages'', ''3'')],
                  json_body = Inr (JArr [])\<rparr>)
     (example_reader None) ''posts'' 2 net0
   = (Inr \<lparr>articles = JArr [], next_page = Some 3\<rparr>,
      \<lparr>sent = [page_request (example_reader None) ''posts'' 2], world = ()\<rparr>)"
    by code_simp
  from h C7_next_page [where srv = "const_site \<lparr>status_code = 200, headers = [(''X-WP-TotalPages'', ''3'')],
                  json_body = Inr (JArr [])\<rparr>", OF h]
  show ?thesis by (rule conjI)
qed

subsection \<open>C2, C3, C9: the two shapes of title and content\<close>

text \<open>What lines 84 to 86 and 91 to 93 do on the nested shape.\<close>

lemma resolve_title_rendered:
  "map_of kvs ''title'' = Some (JObj t) \<Longrightarrow> map_of t ''rendered'' = Some r \<Longrightarrow> truthy r \<Longrightarrow>
   resolve_title (JObj kvs) = Inr r"
  by (simp add: resolve_title_def)

lemma resolve_title_fallback:
  "map_of kvs ''title'' = Some (JObj t) \<Longrightarrow>
   map_of t ''rendered'' = None \<or> map_of t ''rendered'' = Some JNull \<Longrightarrow>
   resolve_title (JObj kvs) = Inr (JObj t)"
  by (auto simp: resolve_title_def)

lemma resolve_body_rendered:
  "map_of kvs ''content'' = Some (JObj c) \<Longrightarrow> map_of c ''rendered'' = Some b \<Longrightarrow> b \<noteq> JNull \<Longrightarrow>
   resolve_body (JObj kvs) = Inr b"
  by (simp add: resolve_body_def)

lemma resolve_body_fallback:
  "map_of kvs ''content'' = Some (JObj c) \<Longrightarrow>
   map_of c ''rendered'' = None \<or> map_of c ''rendered'' = Some JNull \<Longrightarrow>
   resolve_body (JObj kvs) = Inr (JObj c)"
  by (auto simp: resolve_body_def)

text \<open>
  C2 says that a raw item with the flat title \<open>s\<close> and one with the nested title
  \<open>{rendered: s}\<close> both normalize, to the same title \<open>s\<close>. The code does not do that:
  line 91 calls \<^verbatim>\<open>.get("rendered", None)\<close> on the title, and a string has no such
  method, so every item with a flat title raises AttributeError, whatever \<open>s\<close> is.
  The nested shape gives \<open>s\<close> for \<open>Hello\<close>, but for the empty string it gives the
  whole title object.
\<close>

theorem C2_title_shapes_differ:
  "article_to_document example_soup
     (JObj [(''id'', JInt 7), (''link'', JStr ''https://example.com/?p=7''),
            (''modified'', JStr ''2024-01-01T00:00:00''),
            (''title'', JStr s),
            (''content'', JObj [(''rendered'', JStr b)])])
   = Inl AttributeError
   \<and> resolve_title (JObj [(''title'', JStr s)]) = Inl AttributeError
   \<and> resolve_title (JObj [(''title'', JObj [(''rendered'', JStr ''Hello'')])]) = Inr (JStr ''Hello'')
   \<and> resolve_title (JObj [(''title'', JObj [(''rendered'', JStr '''')])])
       = Inr (JObj [(''rendered'', JStr '''')])"
  by (simp add: article_to_document_def resolve_body_def resolve_title_def example_soup_def)

text \<open>
  C3 says that a flat string as content is used directly as the body and that
  normalization succeeds in both shapes. The code takes \<^verbatim>\<open>content.rendered\<close> on the
  nested shape, but on the flat shape line 84 calls \<^verbatim>\<open>.get("rendered", None)\<close> on the
  string and raises AttributeError before the fallback of line 86 and before the
  extractor is reached, whatever the extractor \<open>soup\<close> is.
\<close>

theorem C3_flat_content_raises:
  "article_to_document soup
     (JObj [(''id'', JInt 7), (''link'', JStr ''https://example.com/?p=7''),
            (''modified'', JStr ''2024-01-01T00:00:00''),
            (''title'', JObj [(''rendered'', JStr t)]),
            (''content'', JStr b)])
   = Inl AttributeError
   \<and> resolve_body (JObj [(''content'', JStr b)]) = Inl AttributeError
   \<and> resolve_body (JObj [(''content'', JObj [(''rendered'', JStr b)])]) = Inr (JStr b)"
  by (simp add: article_to_document_def resolve_body_def)

text \<open>
  C9 says that a present, non-null \<^verbatim>\<open>title.rendered\<close> is the title, the empty string
  included. The code joins the two alternatives with \<^verbatim>\<open>or\<close>, which falls back on
  every false value: with \<^verbatim>\<open>rendered\<close> the empty string, the title of the document
  is the whole title object. The body, resolved with \<^verbatim>\<open>is None\<close>, keeps the empty string.
\<close>

theorem C9_empty_rendered_title:
  "resolve_title (JObj [(''title'', JObj [(''rendered'', JStr '''')])])
     = Inr (JObj [(''rendered'', JStr '''')])
   \<and> article_to_document example_soup (nested_item 7 '''' ''body'')
     = Inr \<lparr>doc_text = ''body'',
            extra_info = [(''id'', JInt 7),
                          (''title'', JObj [(''rendered'', JStr '''')]),
                          (''url'', JStr ''https://example.com/?p=1''),
                          (''updated_at'', JStr ''2024-01-01T00:00:00'')]\<rparr>
   \<and> resolve_body (JObj [(''content'', JObj [(''rendered'', JStr '''')])]) = Inr (JStr '''')"
  by (simp add: article_to_document_def resolve_body_def resolve_title_def example_soup_def
      nested_item_def)

subsection \<open>C5: nothing configured, nothing fetched\<close>

text \<open>
  C5: a reader constructed with \<^verbatim>\<open>get_pages=False\<close>, \<^verbatim>\<open>get_posts=False\<close> and no
  additional post types (\<^verbatim>\<open>None\<close>, or the empty string) has no post types;
  \<^verbatim>\<open>load_data\<close> returns the empty list of documents and leaves the network state as
  it was, so no request is issued, whatever the site and the extractor are.
\<close>

theorem C5_nothing_to_fetch:
  "load_data srv soup (WordpressReader_init h u un pw False False None lim) s = Some (Inr [], s)
   \<and> load_data srv soup (WordpressReader_init h u un pw False False (Some []) lim) s
       = Some (Inr [], s)
   \<and> post_types (WordpressReader_init h u un pw False False None lim) = []"
  by (simp add: load_data_def WordpressReader_init_def set_to_list_def)

subsection \<open>C4: how many pages are fetched\<close>

text \<open>
  C4 as written fails where the site reports a total of zero pages (what WordPress
  sends for a type without entries): the loop fetches before it tests, so one request
  is made, while \<open>min(total_pages, N)\<close> is 0.
\<close>

theorem C4_zero_pages_counterexample:
  "total_pages \<lparr>status_code = 200, headers = [(''X-WP-TotalPages'', ''0'')],
                 json_body = Inr (JArr [])\<rparr> = Inr 0
   \<and> page_limit (example_reader (Some 2)) = Some 2
   \<and> get_all_posts
        (const_site \<lparr>status_code = 200, headers = [(''X-WP-TotalPages'', ''0'')],
                     json_body = Inr (JArr [])\<rparr>)
        (example_reader (Some 2)) ''pages'' net0
      = Some (Inr [], \<lparr>sent = [page_request (example_reader (Some 2)) ''pages'' 1], world = ()\<rparr>)
   \<and> int (length [page_request (example_reader (Some 2)) ''pages'' 1]) \<noteq> min 0 2"
  by code_simp

text \<open>
  C4, amended: when the answers a content type receives for its pages 1 to
  \<open>min (max 1 t) N\<close> all succeed and report the total \<open>t\<close>, with a page limit
  \<open>N \<ge> 1\<close> \<^verbatim>\<open>get_all_posts\<close> returns after requesting exactly these pages, in this
  order (so exactly \<open>N\<close> requests when \<open>t > N\<close>); without a limit it requests the
  pages 1 to \<open>max 1 t\<close>. The run stops where \<open>page_run\<close> says (no next page, or the
  limit reached after the page's items were taken), and what it returns are the items
  of all the pages requested. Only the answers the run receives are constrained: the
  site may answer other types, other pages and other states as it likes. On any site
  whatever, a call that returns (with a result or an exception) has issued at least
  one request.
\<close>

theorem C4_fetch_count:
  "(\<forall>N. page_limit self = Some N \<and> 1 \<le> N
         \<and> pages_report srv self post_type (world s) t (min (max 1 t) N) \<longrightarrow>
         (\<exists>posts s'. get_all_posts srv self post_type s = Some (Inr posts, s')
            \<and> sent s' = sent s @ map (page_request self post_type) [1..min (max 1 t) N]
            \<and> int (length (sent s')) = int (length (sent s)) + min (max 1 t) N
            \<and> (N < t \<longrightarrow> int (length (sent s')) = int (length (sent s)) + N)
            \<and> (\<exists>batches. page_run srv self post_type 1 0 s batches s'
                   \<and> posts = concat batches \<and> int (length batches) = min (max 1 t) N)))
   \<and> (page_limit self = None \<and> pages_report srv self post_type (world s) t (max 1 t) \<longrightarrow>
         (\<exists>posts s'. get_all_posts srv self post_type s = Some (Inr posts, s')
            \<and> sent s' = sent s @ map (page_request self post_type) [1..max 1 t]
            \<and> int (length (sent s')) = int (length (sent s)) + max 1 t
            \<and> (\<exists>batches. page_run srv self post_type 1 0 s batches s'
                   \<and> posts = concat batches \<and> int (length batches) = max 1 t)))
   \<and> (\<forall>y. get_all_posts srv self post_type s = Some y \<longrightarrow>
         length (sent s) < length (sent (snd y)))"
proof (intro conjI impI allI)
  fix N
  assume h: "page_limit self = Some N \<and> 1 \<le> N
         \<and> pages_report srv self post_type (world s) t (min (max 1 t) N)"
  then have rep: "pages_report srv self post_type (world s) t (min (max 1 t) N)"
    and N: "page_limit self = Some N \<and> 1 \<le> N" by simp_all
  from N have lim: "(page_limit self = None \<and> min (max 1 t) N = max 1 t)
       \<or> (\<exists>N'. page_limit self = Some N' \<and> 1 \<le> N' \<and> min (max 1 t) N = min (max 1 t) N')"
    by blast
  from pages_report_get_all_posts [OF rep lim]
  obtain posts s' where
    r: "get_all_posts srv self post_type s = Some (Inr posts, s')"
    and se: "sent s' = sent s @ map (page_request self post_type) [1..min (max 1 t) N]"
    and le: "int (length (sent s')) = int (length (sent s)) + min (max 1 t) N"
    and b: "\<exists>batches. page_run srv self post_type 1 0 s batches s'
               \<and> posts = concat batches \<and> int (length batches) = min (max 1 t) N"
    by blast
  from le N have "N < t \<longrightarrow> int (length (sent s')) = int (length (sent s)) + N" by auto
  with r se le b
  show "\<exists>posts s'. get_all_posts srv self post_type s = Some (Inr posts, s')
            \<and> sent s' = sent s @ map (page_request self post_type) [1..min (max 1 t) N]
            \<and> int (length (sent s')) = int (length (sent s)) + min (max 1 t) N
            \<and> (N < t \<longrightarrow> int (length (sent s')) = int (length (sent s)) + N)
            \<and> (\<exists>batches. page_run srv self post_type 1 0 s batches s'
                   \<and> posts = concat batches \<and> int (length batches) = min (max 1 t) N)"
    by blast
next
  assume h: "page_limit self = None \<and> pages_report srv self post_type (world s) t (max 1 t)"
  then have rep: "pages_report srv self post_type (world s) t (max 1 t)"
    and N: "page_limit self = None" by simp_all
  from N have lim: "(page_limit self = None \<and> max 1 t = max 1 t)
       \<or> (\<exists>N'. page_limit self = Some N' \<and> 1 \<le> N' \<and> max 1 t = min (max 1 t) N')"
    by blast
  from pages_report_get_all_posts [OF rep lim]
  show "\<exists>posts s'. get_all_posts srv self post_type s = Some (Inr posts, s')
            \<and> sent s' = sent s @ map (page_request self post_type) [1..max 1 t]
            \<and> int (length (sent s')) = int (length (sent s)) + max 1 t
            \<and> (\<exists>batches. page_run srv self post_type 1 0 s batches s'
                   \<and> posts = concat batches \<and> int (length batches) = max 1 t)" .
next
  fix y
  assume "get_all_posts srv self post_type s = Some y"
  then have "posts_loop srv self post_type [] 1 0 s = Some y" by (simp add: get_all_posts_def)
  then show "length (sent s) < length (sent (snd y))" by (rule posts_loop_sent)
qed

theorem C4_fetch_count_witness:
  "(page_limit (example_reader (Some 2)) = Some 2 \<and> (1::int) \<le> 2
      \<and> pages_report three_pages_site (example_reader (Some 2)) ''pages'' (world net0) 3
           (min (max 1 3) 2))
   \<and> (\<exists>posts s'. get_all_posts three_pages_site (example_reader (Some 2)) ''pages'' net0
          = Some (Inr posts, s')
        \<and> sent s' = sent net0 @ map (page_request (example_reader (Some 2)) ''pages'') [1..min (max 1 3) 2]
        \<and> int (length (sent s')) = int (length (sent net0)) + min (max 1 3) 2
        \<and> ((2::int) < 3 \<longrightarrow> int (length (sent s')) = int (length (sent net0)) + 2)
        \<and> (\<exists>batches. page_run three_pages_site (example_reader (Some 2)) ''pages''
                 1 0 net0 batches s'
               \<and> posts = concat batches \<and> int (length batches) = min (max 1 3) 2))
   \<and> (page_limit (example_reader None) = None
      \<and> pages_report three_pages_site (example_reader None) ''pages'' (world net0) 3 (max 1 3))
   \<and> (\<exists>posts s'. get_all_posts three_pages_site (example_reader None) ''pages'' net0
          = Some (Inr posts, s')
        \<and> sent s' = sent net0 @ map (page_request (example_reader None) ''pages'') [1..max 1 3]
        \<and> int (length (sent s')) = int (length (sent net0)) + max 1 3
        \<and> (\<exists>batches. page_run three_pages_site (example_reader None) ''pages''
                 1 0 net0 batches s'
               \<and> posts = concat batches \<and> int (length batches) = max 1 3))
   \<and> get_all_posts three_pages_site (example_reader (Some 2)) ''pages'' net0
        = Some (Inr [], \<lparr>sent = [page_request (example_reader (Some 2)) ''pages'' 1,
                                  page_request (example_reader (Some 2)) ''pages'' 2],
                          world = ()\<rparr>)
   \<and> length (sent net0)
       < length (sent (snd (Inr [] :: error + json list,
                            \<lparr>sent = [page_request (example_reader (Some 2)) ''pages'' 1,
                                     page_request (example_reader (Some 2)) ''pages'' 2],
                              world = ()\<rparr>)))"
proof -
  have l2: "page_limit (example_reader (Some 2)) = Some 2 \<and> (1::int) \<le> 2"
    by (simp add: example_reader_def WordpressReader_init_def)
  have l0: "page_limit (example_reader None) = None"
    by (simp add: example_reader_def WordpressReader_init_def)
  have r2: "pages_report three_pages_site (example_reader (Some 2)) ''pages'' (world net0) 3
      (min (max 1 3) 2)"
    by (rule three_pages_site_reports) simp
  have r0: "pages_report three_pages_site (example_reader None) ''pages'' (world net0) 3 (max 1 3)"
    by (rule three_pages_site_reports) simp
  have h2: "page_limit (example_reader (Some 2)) = Some 2 \<and> (1::int) \<le> 2
      \<and> pages_report three_pages_site (example_reader (Some 2)) ''pages'' (world net0) 3
           (min (max 1 3) 2)"
    using l2 r2 by blast
  have h0: "page_limit (example_reader None) = None
      \<and> pages_report three_pages_site (example_reader None) ''pages'' (world net0) 3 (max 1 3)"
    using l0 r0 by blast
  have run: "get_all_posts three_pages_site (example_reader (Some 2)) ''pages'' net0
        = Some (Inr [], \<lparr>sent = [page_request (example_reader (Some 2)) ''pages'' 1,
                                  page_request (example_reader (Some 2)) ''pages'' 2],
                          world = ()\<rparr>)"
    by code_simp
  note a = C4_fetch_count [where srv = three_pages_site and t = 3
      and self = "example_reader (Some 2)" and post_type = "''pages''" and s = net0]
  note b = C4_fetch_count [where srv = three_pages_site and t = 3
      and self = "example_reader None" and post_type = "''pages''" and s = net0]
  note a1 = a [THEN conjunct1, THEN spec, THEN mp, OF h2]
  note b1 = b [THEN conjunct2, THEN conjunct1, THEN mp, OF h0]
  note a2 = a [THEN conjunct2, THEN conjunct2, THEN spec, THEN mp, OF run]
  show ?thesis
    by (intro conjI) (rule l2 [THEN conjunct1] l2 [THEN conjunct2] r2 a1 l0 r0 b1 run a2)+
qed

subsection \<open>C8: the order of the documents\<close>

text \<open>
  C8: when \<^verbatim>\<open>load_data\<close> returns documents, the configured post types were
  paginated one after the other in the order of the list \<^verbatim>\<open>post_types\<close>, one run
  of pages per entry, each run from page 1 along \<^verbatim>\<open>next_page\<close>; the fetched items,
  concatenated type by type and page by page, correspond one for one and in this
  order to the documents, each document being the normalization of its item. The
  list that \<^verbatim>\<open>__init__\<close> builds names every type once.
\<close>

theorem C8_documents_in_fetch_order:
  assumes "load_data srv soup self s = Some (Inr docs, s')"
  shows "(\<exists>bss. types_run srv self (post_types self) s bss s'
            \<and> length bss = length (post_types self)
            \<and> list_all2 (\<lambda>a d. article_to_document soup a = Inr d) (concat (map concat bss)) docs
            \<and> length docs = length (concat (map concat bss)))
         \<and> distinct (post_types (WordpressReader_init h u un pw gp gpo add lim))"
proof -
  from assms obtain arts where
    l: "load_articles srv self (post_types self) [] s = Some (Inr arts, s')"
    and p: "process_articles soup arts [] = Inr docs"
    by (auto simp: load_data_def split: option.splits sum.splits)
  from load_articles_types_run [OF l] obtain bss where
    t: "types_run srv self (post_types self) s bss s'" and a: "arts = concat (map concat bss)"
    by auto
  from t have len: "length bss = length (post_types self)"
    by (induction rule: types_run.induct) simp_all
  from process_articles_documents [OF p] a
  have d: "list_all2 (\<lambda>a d. article_to_document soup a = Inr d) (concat (map concat bss)) docs"
    by simp
  then have "length docs = length (concat (map concat bss))"
    by (simp add: list_all2_lengthD)
  with t len d init_post_types_distinct show ?thesis by blast
qed


theorem C8_documents_in_fetch_order_witness:
  "load_data (paged_site ''2'' (JArr [nested_item 1 ''Hello'' ''body''])) example_soup
     (example_reader None) net0
   = Some (Inr (replicate 4
              \<lparr>doc_text = ''body'',
                extra_info = [(''id'', JInt 1), (''title'', JStr ''Hello''),
                              (''url'', JStr ''https://example.com/?p=1''),
                              (''updated_at'', JStr ''2024-01-01T00:00:00'')]\<rparr>),
           \<lparr>sent = [page_request (example_reader None) ''pages'' 1,
                    page_request (example_reader None) ''pages'' 2,
                    page_request (example_reader None) ''posts'' 1,
                    page_request (example_reader None) ''posts'' 2],
             world = ()\<rparr>)
   \<and> (\<exists>bss. types_run (paged_site ''2'' (JArr [nested_item 1 ''Hello'' ''body'']))
               (example_reader None) (post_types (example_reader None)) net0 bss
               \<lparr>sent = [page_request (example_reader None) ''pages'' 1,
                        page_request (example_reader None) ''pages'' 2,
                        page_request (example_reader None) ''posts'' 1,
                        page_request (example_reader None) ''posts'' 2],
                 world = ()\<rparr>
          \<and> length bss = length (post_types (example_reader None))
          \<and> list_all2 (\<lambda>a d. article_to_document example_soup a = Inr d)
               (concat (map concat bss))
               (replicate 4
                  \<lparr>doc_text = ''body'',
                    extra_info = [(''id'', JInt 1), (''title'', JStr ''Hello''),
                                  (''url'', JStr ''https://example.com/?p=1''),
                                  (''updated_at'', JStr ''2024-01-01T00:00:00'')]\<rparr>)
          \<and> length (replicate 4
                  \<lparr>doc_text = ''body'',
                    extra_info = [(''id'', JInt 1), (''title'', JStr ''Hello''),
                                  (''url'', JStr ''https://example.com/?p=1''),
                                  (''updated_at'', JStr ''2024-01-01T00:00:00'')]\<rparr>)
              = length (concat (map concat bss)))"
proof -
  have run: "load_data (paged_site ''2'' (JArr [nested_item 1 ''Hello'' ''body''])) example_soup
     (example_reader None) net0
   = Some (Inr (replicate 4
              \<lparr>doc_text = ''body'',
                extra_info = [(''id'', JInt 1), (''title'', JStr ''Hello''),
                              (''url'', JStr ''https://example.com/?p=1''),
                              (''updated_at'', JStr ''2024-01-01T00:00:00'')]\<rparr>),
           \<lparr>sent = [page_request (example_reader None) ''pages'' 1,
                    page_request (example_reader None) ''pages'' 2,
                    page_request (example_reader None) ''posts'' 1,
                    page_request (example_reader None) ''posts'' 2],
             world = ()\<rparr>)"
    by code_simp
  from run C8_documents_in_fetch_order [OF run, THEN conjunct1]
  show ?thesis by (rule conjI)
qed

subsection \<open>C6: a raw item without a required field\<close>

text \<open>
  C6 as written (every run with such an item fails with the error for the missing
  field) fails, since the exception that surfaces is the first one raised: here the
  item without \<^verbatim>\<open>id\<close> has been fetched with the pages, and the call fails
  with the HTTP error of the request for the posts, before any item is normalized.
\<close>

theorem C6_other_error_first_counterexample:
  "missing_required item_without_id
   \<and> get_all_posts
        (one_listing_site ''https://example.com/wp-json/wp/v2/pages?per_page=100&page=1''
           (JArr [item_without_id]))
        (example_reader None) ''pages'' net0
      = Some (Inr [item_without_id],
              \<lparr>sent = [page_request (example_reader None) ''pages'' 1], world = ()\<rparr>)
   \<and> load_data
        (one_listing_site ''https://example.com/wp-json/wp/v2/pages?per_page=100&page=1''
           (JArr [item_without_id]))
        example_soup (example_reader None) net0
      = Some (Inl (HTTPError 500),
              \<lparr>sent = [page_request (example_reader None) ''pages'' 1,
                       page_request (example_reader None) ''posts'' 1],
                world = ()\<rparr>)"
  by code_simp

text \<open>
  C6, amended: when all fetches of a call succeed and some fetched item lacks \<^verbatim>\<open>id\<close>,
  \<^verbatim>\<open>link\<close> or \<^verbatim>\<open>modified\<close>, the call raises and returns no documents at all;
  the exception is the KeyError of a missing field of the first such item when the
  items before it normalize and its own body, text and title are obtained without
  exception.
\<close>

theorem C6_missing_field_fails_call:
  assumes "load_articles srv self (post_types self) [] s = Some (Inr arts, s')"
    and "a \<in> set arts" and "missing_required a"
  shows "(\<exists>e. load_data srv soup self s = Some (Inl e, s'))
       \<and> (\<forall>pre post kvs b plain ttl.
             arts = pre @ JObj kvs # post
             \<and> (\<forall>x \<in> set pre. \<exists>d. article_to_document soup x = Inr d)
             \<and> missing_required (JObj kvs)
             \<and> resolve_body (JObj kvs) = Inr b \<and> soup b = Inr plain
             \<and> resolve_title (JObj kvs) = Inr ttl
           \<longrightarrow> (\<exists>k. (k = ''id'' \<or> k = ''link'' \<or> k = ''modified'') \<and> map_of kvs k = None
                  \<and> load_data srv soup self s = Some (Inl (KeyError k), s')))"
proof (rule conjI)
  show "\<exists>e. load_data srv soup self s = Some (Inl e, s')"
    using assms by (rule load_data_missing_fails)
next
  show "\<forall>pre post kvs b plain ttl.
             arts = pre @ JObj kvs # post
             \<and> (\<forall>x \<in> set pre. \<exists>d. article_to_document soup x = Inr d)
             \<and> missing_required (JObj kvs)
             \<and> resolve_body (JObj kvs) = Inr b \<and> soup b = Inr plain
             \<and> resolve_title (JObj kvs) = Inr ttl
           \<longrightarrow> (\<exists>k. (k = ''id'' \<or> k = ''link'' \<or> k = ''modified'') \<and> map_of kvs k = None
                  \<and> load_data srv soup self s = Some (Inl (KeyError k), s'))"
  proof (intro allI impI)
    fix pre post kvs b plain ttl
    assume h: "arts = pre @ JObj kvs # post
             \<and> (\<forall>x \<in> set pre. \<exists>d. article_to_document soup x = Inr d)
             \<and> missing_required (JObj kvs)
             \<and> resolve_body (JObj kvs) = Inr b \<and> soup b = Inr plain
             \<and> resolve_title (JObj kvs) = Inr ttl"
    from h have a: "arts = pre @ JObj kvs # post" by (rule conjunct1)
    from h have pre: "\<forall>x \<in> set pre. \<exists>d. article_to_document soup x = Inr d" by blast
    from h have m: "missing_required (JObj kvs)" by blast
    from h have b: "resolve_body (JObj kvs) = Inr b" by blast
    from h have t: "soup b = Inr plain" by blast
    from h have ti: "resolve_title (JObj kvs) = Inr ttl" by blast
    from assms(1) have l: "load_articles srv self (post_types self) [] s
        = Some (Inr (pre @ JObj kvs # post), s')" unfolding a .
    from l pre m b t ti
    have g: "\<exists>k. (k = ''id'' \<or> k = ''link'' \<or> k = ''modified'') \<and> map_of kvs k = None
                  \<and> load_data srv soup self s = Some (Inl (KeyError k), s')"
      by (rule load_data_key_error)
    show "\<exists>k. (k = ''id'' \<or> k = ''link'' \<or> k = ''modified'') \<and> map_of kvs k = None
                  \<and> load_data srv soup self s = Some (Inl (KeyError k), s')"
      by (rule g)
  qed
qed

theorem C6_missing_field_fails_call_witness:
  "load_articles (paged_site ''1'' (JArr [nested_item 1 ''Hello'' ''body'', item_without_id]))
     (example_reader None) (post_types (example_reader None)) [] net0
   = Some (Inr [nested_item 1 ''Hello'' ''body'', item_without_id,
                nested_item 1 ''Hello'' ''body'', item_without_id],
           \<lparr>sent = [page_request (example_reader None) ''pages'' 1,
                    page_request (example_reader None) ''posts'' 1],
             world = ()\<rparr>)
   \<and> missing_required item_without_id
   \<and> (\<exists>e. load_data (paged_site ''1'' (JArr [nested_item 1 ''Hello'' ''body'', item_without_id]))
          example_soup (example_reader None) net0
        = Some (Inl e, \<lparr>sent = [page_request (example_reader None) ''pages'' 1,
                                 page_request (example_reader None) ''posts'' 1],
                         world = ()\<rparr>))
   \<and> (\<exists>k. (k = ''id'' \<or> k = ''link'' \<or> k = ''modified'')
        \<and> load_data (paged_site ''1'' (JArr [nested_item 1 ''Hello'' ''body'', item_without_id]))
            example_soup (example_reader None) net0
          = Some (Inl (KeyError k),
                  \<lparr>sent = [page_request (example_reader None) ''pages'' 1,
                           page_request (example_reader None) ''posts'' 1],
                    world = ()\<rparr>))"
proof -
  let ?site = "paged_site ''1'' (JArr [nested_item 1 ''Hello'' ''body'', item_without_id])"
  let ?s' = "\<lparr>sent = [page_request (example_reader None) ''pages'' 1,
                    page_request (example_reader None) ''posts'' 1],
             world = ()\<rparr>"
  let ?kvs = "[(''link'', JStr ''https://example.com/?p=2''),
           (''modified'', JStr ''2024-01-02T00:00:00''),
           (''title'', JObj [(''rendered'', JStr ''Untitled'')]),
           (''content'', JObj [(''rendered'', JStr ''text'')])]"
  have fetch: "load_articles ?site (example_reader None) (post_types (example_reader None)) [] net0
     = Some (Inr [nested_item 1 ''Hello'' ''body'', item_without_id,
                  nested_item 1 ''Hello'' ''body'', item_without_id], ?s')"
    by code_simp
  have mem: "item_without_id \<in> set [nested_item 1 ''Hello'' ''body'', item_without_id,
                  nested_item 1 ''Hello'' ''body'', item_without_id]" by simp
  have miss: "missing_required item_without_id" by code_simp
  note c6 = C6_missing_field_fails_call [where srv = ?site and soup = example_soup,
      OF fetch mem miss]
  have shape: "[nested_item 1 ''Hello'' ''body'', item_without_id,
                nested_item 1 ''Hello'' ''body'', item_without_id]
      = [nested_item 1 ''Hello'' ''body''] @ JObj ?kvs
          # [nested_item 1 ''Hello'' ''body'', item_without_id]"
    by (simp add: item_without_id_def)
  have pre: "\<forall>x \<in> set [nested_item 1 ''Hello'' ''body''].
      \<exists>d. article_to_document example_soup x = Inr d"
    by (simp add: article_to_document_def resolve_body_def resolve_title_def example_soup_def
        nested_item_def)
  have m2: "missing_required (JObj ?kvs)" by (simp add: missing_required_def)
  have b: "resolve_body (JObj ?kvs) = Inr (JStr ''text'')" by (simp add: resolve_body_def)
  have t: "example_soup (JStr ''text'') = Inr ''text''" by (simp add: example_soup_def)
  have ti: "resolve_title (JObj ?kvs) = Inr (JStr ''Untitled'')" by (simp add: resolve_title_def)
  from c6 [THEN conjunct2, THEN spec, THEN spec, THEN spec, THEN spec, THEN spec, THEN spec,
      THEN mp, OF conjI [OF shape conjI [OF pre conjI [OF m2 conjI [OF b conjI [OF t ti]]]]]]
  have key: "\<exists>k. (k = ''id'' \<or> k = ''link'' \<or> k = ''modified'')
        \<and> load_data ?site example_soup (example_reader None) net0 = Some (Inl (KeyError k), ?s')"
    by blast
  from fetch miss c6 [THEN conjunct1] key show ?thesis by (intro conjI)
qed

subsection \<open>C10: a blank additional post type\<close>

text \<open>
  C10: when the string of additional post types has a blank entry (after stripping),
  as in \<^verbatim>\<open>"webinars,"\<close>, the empty string is one of the configured post types;
  \<^verbatim>\<open>load_data\<close>, run against a site that answers every request, then calls the
  fetcher with the empty post type, and the address requested is the base address followed
  by \<^verbatim>\<open>/wp-json/wp/v2/?per_page=100&page=1\<close>. Nothing filters the blank entry out.
\<close>

theorem C10_blank_post_type_is_fetched:
  assumes "a \<noteq> []" and "[] \<in> set (map py_strip (py_split CHR '','' a))"
  shows "[] \<in> set (post_types (WordpressReader_init h u un pw gp gpo (Some a) lim))
     \<and> (\<exists>s'. load_data quiet_site soup (WordpressReader_init h u un pw gp gpo (Some a) lim) s
                 = Some (Inr [], s')
             \<and> page_request (WordpressReader_init h u un pw gp gpo (Some a) lim) [] 1
                 \<in> set (sent s'))
     \<and> req_url (page_request (WordpressReader_init h u un pw gp gpo (Some a) lim) [] 1)
         = u @ ''/wp-json/wp/v2/?per_page=100&page=1''"
proof -
  let ?self = "WordpressReader_init h u un pw gp gpo (Some a) lim"
  from assms init_post_types_additional [of a h u un pw gp gpo lim]
  have m: "[] \<in> set (post_types ?self)" by blast
  then have "page_request ?self [] 1
     \<in> set (sent s @ map (\<lambda>t. page_request ?self t 1) (post_types ?self))" by simp
  then have r: "\<exists>s'. load_data quiet_site soup ?self s = Some (Inr [], s')
             \<and> page_request ?self [] 1 \<in> set (sent s')"
    by (simp add: quiet_site_load_data)
  have "req_url (page_request ?self [] 1) = u @ ''/wp-json/wp/v2/?per_page=100&page=1''"
    by (simp add: page_request_def init_url str_of_int_1)
  with m r show ?thesis by blast
qed

theorem C10_blank_post_type_is_fetched_witness:
  "''webinars,'' \<noteq> [] \<and> [] \<in> set (map py_strip (py_split CHR '','' ''webinars,''))
   \<and> [] \<in> set (post_types (WordpressReader_init (\<lambda>_. 0) ''https://example.com'' None None
                              False False (Some ''webinars,'') None))
   \<and> (\<exists>s'. load_data quiet_site example_soup
               (WordpressReader_init (\<lambda>_. 0) ''https://example.com'' None None
                  False False (Some ''webinars,'') None) net0
              = Some (Inr [], s')
           \<and> page_request (WordpressReader_init (\<lambda>_. 0) ''https://example.com'' None None
                  False False (Some ''webinars,'') None) [] 1 \<in> set (sent s'))
   \<and> req_url (page_request (WordpressReader_init (\<lambda>_. 0) ''https://example.com'' None None
                  False False (Some ''webinars,'') None) [] 1)
       = ''https://example.com'' @ ''/wp-json/wp/v2/?per_page=100&page=1''"
proof -
  have h1: "''webinars,'' \<noteq> []" by simp
  have h2: "[] \<in> set (map py_strip (py_split CHR '','' ''webinars,''))" by code_simp
  note c = C10_blank_post_type_is_fetched [where soup = example_soup and s = net0
      and h = "\<lambda>_. 0" and u = "''https://example.com''" and un = None and pw = None
      and gp = False and gpo = False and lim = None, OF h1 h2]
  from h1 h2 c [THEN conjunct1] c [THEN conjunct2, THEN conjunct1]
    c [THEN conjunct2, THEN conjunct2]
  show ?thesis by (intro conjI)
qed

end
